theory Spec2Isabelle
  imports Main "HOL-Library.Word"
begin

section \<open>JavaScript strings and errors\<close>

text \<open>
  A JavaScript string is a sequence of UTF-16 code units. String literals of the source
  are written \<open>js ''...''\<close>; the two characters that cannot stand in such a literal,
  the double quote and the backslash, are the code units \<open>0x22\<close> and \<open>0x5C\<close>.
\<close>

type_synonym jsstring = "16 word list"

definition js :: "string \<Rightarrow> jsstring" where
  "js s = map (\<lambda>c. of_nat (of_char c)) s"

text \<open>
  An error object thrown by an external call (the provider SDK, the file system):
  \<open>Err s\<close>, with \<open>s\<close> the text that a template literal \<^verbatim>\<open>${err}\<close> renders for it.
\<close>

datatype error = Err jsstring

fun render_error :: "error \<Rightarrow> jsstring" where
  "render_error (Err s) = s"

text \<open>
  What \<open>kwiksetLogin\<close> can throw: the \<open>SyntaxError\<close> of \<open>JSON.parse\<close>, the
  \<open>RangeError\<close> with which the runtime refuses to listen on a port above 65535
  (\<^verbatim>\<open>ERR_SOCKET_BAD_PORT\<close>, with the port), or the error of an external call.
\<close>

datatype exn = SyntaxError | BadPort nat | External error

text \<open>The rendering of a value that may be \<^verbatim>\<open>undefined\<close> inside a template literal.\<close>

fun render_opt :: "jsstring option \<Rightarrow> jsstring" where
  "render_opt None = js ''undefined''"
| "render_opt (Some s) = s"

text \<open>Decimal rendering of a non-negative integer, as \<^verbatim>\<open>${config.mfaPort}\<close> gives it.\<close>

fun show_nat :: "nat \<Rightarrow> jsstring" where
  "show_nat n =
     (if n < 10 then [of_nat (48 + n)]
      else show_nat (n div 10) @ [of_nat (48 + n mod 10)])"

declare show_nat.simps [simp del]

section \<open>JSON values, \<open>JSON.stringify\<close> and \<open>JSON.parse\<close>\<close>

text \<open>
  The two library functions the token file goes through, after ECMA-262 and ECMA-404, as
  far as the module uses them: \<open>JSON.parse\<close> on any text, \<open>JSON.stringify\<close> on a
  credential record or \<^verbatim>\<open>null\<close>.

  The value \<open>JSON.parse\<close> returns. A number keeps its exact decimal value
  \<open>(-1)^neg * m * 10^e\<close>; an object keeps its members in source order, duplicates
  included (a property read takes the last one, as \<open>JSON.parse\<close> overwrites).
\<close>

datatype json =
    JNull
  | JBool bool
  | JNumber bool nat int
  | JString jsstring
  | JArray "json list"
  | JObject "(jsstring \<times> json) list"

text \<open>
  \<open>ToBoolean\<close> on a parsed value. A number is falsy when it is zero as a double:
  the decimal is rounded to the nearest double, ties to even, so everything up to and
  including half of the least positive double \<open>2^-1074\<close> becomes \<open>0\<close>.
\<close>

definition number_is_zero :: "nat \<Rightarrow> int \<Rightarrow> bool" where
  "number_is_zero m e = (m = 0 \<or> (e < 0 \<and> m * 2 ^ 1075 \<le> 10 ^ nat (- e)))"

fun truthy :: "json \<Rightarrow> bool" where
  "truthy JNull = False"
| "truthy (JBool b) = b"
| "truthy (JNumber neg m e) = (\<not> number_is_zero m e)"
| "truthy (JString s) = (s \<noteq> [])"
| "truthy (JArray xs) = True"
| "truthy (JObject kvs) = True"

text \<open>
  A property read \<^verbatim>\<open>v.key\<close> on a truthy parsed value, for a key that no prototype
  defines (\<open>idToken\<close>, \<open>accessToken\<close>, \<open>refreshToken\<close>): an own property of an object,
  \<^verbatim>\<open>undefined\<close> (\<open>None\<close>) otherwise.
\<close>

fun get_prop :: "json \<Rightarrow> jsstring \<Rightarrow> json option" where
  "get_prop (JObject kvs) k = map_of (rev kvs) k"
| "get_prop v k = None"

subsection \<open>Surrogates and escapes\<close>

definition is_lead :: "16 word \<Rightarrow> bool" where
  "is_lead c = (0xD800 \<le> c \<and> c \<le> 0xDBFF)"

definition is_trail :: "16 word \<Rightarrow> bool" where
  "is_trail c = (0xDC00 \<le> c \<and> c \<le> 0xDFFF)"

definition hexdigit :: "nat \<Rightarrow> 16 word" where
  "hexdigit n = (if n < 10 then of_nat (48 + n) else of_nat (87 + n))"

text \<open>\<open>UnicodeEscape\<close>: a backslash, \<open>u\<close> and four lowercase hexadecimal digits.\<close>

definition unicode_escape :: "16 word \<Rightarrow> jsstring" where
  "unicode_escape c =
     [0x5C, 0x75, hexdigit (unat c div 4096), hexdigit (unat c div 256 mod 16),
      hexdigit (unat c div 16 mod 16), hexdigit (unat c mod 16)]"

text \<open>
  The escape of one code unit that is not half of a surrogate pair: the two-character
  escapes of the table, \<open>UnicodeEscape\<close> for the other control characters and for a
  lone surrogate, the code unit itself otherwise.
\<close>

definition escape_unit :: "16 word \<Rightarrow> jsstring" where
  "escape_unit c =
     (if c = 0x08 then [0x5C, 0x62]
      else if c = 0x09 then [0x5C, 0x74]
      else if c = 0x0A then [0x5C, 0x6E]
      else if c = 0x0C then [0x5C, 0x66]
      else if c = 0x0D then [0x5C, 0x72]
      else if c = 0x22 then [0x5C, 0x22]
      else if c = 0x5C then [0x5C, 0x5C]
      else if c < 0x20 \<or> is_lead c \<or> is_trail c then unicode_escape c
      else [c])"

text \<open>
  The body of \<open>QuoteJSONString\<close> as ECMAScript 2019 and later define it, code point by
  code point: a lead surrogate followed by a trail surrogate is one code point and is
  copied; a surrogate on its own is escaped.
\<close>

fun quote_body :: "jsstring \<Rightarrow> jsstring" where
  "quote_body [] = []"
| "quote_body [c] = escape_unit c"
| "quote_body (c # d # cs) =
     (if is_lead c \<and> is_trail d then c # d # quote_body cs
      else escape_unit c @ quote_body (d # cs))"

definition QuoteJSONString :: "jsstring \<Rightarrow> jsstring" where
  "QuoteJSONString s = 0x22 # quote_body s @ [0x22]"

subsection \<open>Tokens of the JSON grammar\<close>

datatype token =
    TLBrace | TRBrace | TLBracket | TRBracket | TColon | TComma
  | TString jsstring
  | TNumber bool nat int
  | TTrue | TFalse | TNull

definition is_ws :: "16 word \<Rightarrow> bool" where
  "is_ws c = (c = 0x20 \<or> c = 0x09 \<or> c = 0x0A \<or> c = 0x0D)"

definition is_digit :: "16 word \<Rightarrow> bool" where
  "is_digit c = (0x30 \<le> c \<and> c \<le> 0x39)"

text \<open>The value of a hexadecimal digit, in either case.\<close>

definition hexval :: "16 word \<Rightarrow> nat option" where
  "hexval c =
     (if 0x30 \<le> c \<and> c \<le> 0x39 then Some (unat c - 48)
      else if 0x61 \<le> c \<and> c \<le> 0x66 then Some (unat c - 87)
      else if 0x41 \<le> c \<and> c \<le> 0x46 then Some (unat c - 55)
      else None)"

definition hex4 :: "16 word \<Rightarrow> 16 word \<Rightarrow> 16 word \<Rightarrow> 16 word \<Rightarrow> 16 word option" where
  "hex4 a b c d =
     (case (hexval a, hexval b, hexval c, hexval d) of
        (Some p, Some q, Some r, Some s) \<Rightarrow> Some (of_nat (p * 4096 + q * 256 + r * 16 + s))
      | _ \<Rightarrow> None)"

text \<open>The character a single-character escape stands for.\<close>

definition unescape :: "16 word \<Rightarrow> 16 word option" where
  "unescape e =
     (if e = 0x22 then Some 0x22
      else if e = 0x5C then Some 0x5C
      else if e = 0x2F then Some 0x2F
      else if e = 0x62 then Some 0x08
      else if e = 0x66 then Some 0x0C
      else if e = 0x6E then Some 0x0A
      else if e = 0x72 then Some 0x0D
      else if e = 0x74 then Some 0x09
      else None)"

text \<open>
  A string, read from just after its opening quote: the characters it denotes and the
  input after its closing quote. A control character, an unknown escape or the end of
  the input is an error.
\<close>

fun scan_string :: "jsstring \<Rightarrow> (jsstring \<times> jsstring) option" where
  "scan_string [] = None"
| "scan_string (c # cs) =
     (if c = 0x22 then Some ([], cs)
      else if c = 0x5C then
        (case cs of
           [] \<Rightarrow> None
         | e # cs' \<Rightarrow>
             if e = 0x75 then
               (case cs' of
                  h1 # h2 # h3 # h4 # cs'' \<Rightarrow>
                    (case hex4 h1 h2 h3 h4 of
                       None \<Rightarrow> None
                     | Some u \<Rightarrow> map_option (\<lambda>(s, r). (u # s, r)) (scan_string cs''))
                | _ \<Rightarrow> None)
             else
               (case unescape e of
                  None \<Rightarrow> None
                | Some u \<Rightarrow> map_option (\<lambda>(s, r). (u # s, r)) (scan_string cs')))
      else if c < 0x20 then None
      else map_option (\<lambda>(s, r). (c # s, r)) (scan_string cs))"

declare scan_string.simps(2) [simp del]

text \<open>The number a sequence of decimal digits denotes.\<close>

definition digits_val :: "jsstring \<Rightarrow> nat" where
  "digits_val ds = foldl (\<lambda>n d. 10 * n + (unat d - 48)) 0 ds"

text \<open>
  The parts of a number, in the order of the grammar: an optional minus sign, the
  integer part (\<open>0\<close>, or a non-zero digit and more digits), an optional fraction (a
  point and at least one digit), an optional exponent (\<open>e\<close> or \<open>E\<close>, an optional sign
  and at least one digit).
\<close>

definition scan_sign :: "jsstring \<Rightarrow> bool \<times> jsstring" where
  "scan_sign cs = (case cs of c # r \<Rightarrow> if c = 0x2D then (True, r) else (False, cs) | [] \<Rightarrow> (False, []))"

definition scan_int :: "jsstring \<Rightarrow> (jsstring \<times> jsstring) option" where
  "scan_int cs =
     (case cs of
        [] \<Rightarrow> None
      | d # r \<Rightarrow>
          if d = 0x30 then Some ([d], r)
          else if is_digit d then Some (takeWhile is_digit cs, dropWhile is_digit cs)
          else None)"

definition scan_frac :: "jsstring \<Rightarrow> (jsstring \<times> jsstring) option" where
  "scan_frac cs =
     (case cs of
        [] \<Rightarrow> Some ([], [])
      | c # r \<Rightarrow>
          if c = 0x2E then
            (if takeWhile is_digit r = [] then None
             else Some (takeWhile is_digit r, dropWhile is_digit r))
          else Some ([], cs))"

definition scan_exp :: "jsstring \<Rightarrow> (int \<times> jsstring) option" where
  "scan_exp cs =
     (case cs of
        [] \<Rightarrow> Some (0, [])
      | c # r \<Rightarrow>
          if c = 0x65 \<or> c = 0x45 then
            (let (neg, r') =
                   (case r of
                      s # t \<Rightarrow> if s = 0x2D then (True, t) else if s = 0x2B then (False, t) else (False, r)
                    | [] \<Rightarrow> (False, []))
             in if takeWhile is_digit r' = [] then None
                else Some ((if neg then - int (digits_val (takeWhile is_digit r'))
                            else int (digits_val (takeWhile is_digit r'))),
                           dropWhile is_digit r'))
          else Some (0, cs))"

definition scan_number :: "jsstring \<Rightarrow> (token \<times> jsstring) option" where
  "scan_number cs =
     (case scan_sign cs of (neg, cs1) \<Rightarrow>
      case scan_int cs1 of None \<Rightarrow> None | Some (ip, cs2) \<Rightarrow>
      case scan_frac cs2 of None \<Rightarrow> None | Some (fp, cs3) \<Rightarrow>
      case scan_exp cs3 of None \<Rightarrow> None | Some (ex, cs4) \<Rightarrow>
        Some (TNumber neg (digits_val (ip @ fp)) (ex - int (length fp)), cs4))"

subsection \<open>The lexer\<close>

text \<open>Every scanner leaves less input than it was given, so the lexer terminates.\<close>

lemma scan_string_length:
  "scan_string cs = Some (s, rest) \<Longrightarrow> length rest < length cs"
proof (induction cs arbitrary: s rest rule: scan_string.induct)
  case 1
  then show ?case by simp
next
  case (2 c cs)
  then show ?case
    by (fastforce simp: scan_string.simps(2) split: if_splits list.splits option.splits)
qed

lemma scan_sign_length: "scan_sign cs = (neg, rest) \<Longrightarrow> length rest \<le> length cs"
  by (auto simp: scan_sign_def split: list.splits if_splits)

lemma length_dropWhile_less: "length (dropWhile P xs) < Suc (length xs)"
  using length_dropWhile_le [of P xs] by simp

lemma scan_int_length: "scan_int cs = Some (ds, rest) \<Longrightarrow> length rest < length cs"
  by (auto simp: scan_int_def length_dropWhile_less split: list.splits if_splits)

lemma length_dropWhile_le_Suc: "length (dropWhile P xs) \<le> Suc (length xs)"
  using length_dropWhile_le [of P xs] by simp

lemma length_dropWhile_le_Suc2: "length (dropWhile P xs) \<le> Suc (Suc (length xs))"
  using length_dropWhile_le [of P xs] by simp

lemma scan_frac_length: "scan_frac cs = Some (ds, rest) \<Longrightarrow> length rest \<le> length cs"
  by (auto simp: scan_frac_def length_dropWhile_le_Suc split: list.splits if_splits)

lemma scan_exp_length: "scan_exp cs = Some (ex, rest) \<Longrightarrow> length rest \<le> length cs"
  by (auto simp: scan_exp_def Let_def length_dropWhile_le_Suc length_dropWhile_le_Suc2
      split: list.splits if_splits prod.splits)

lemma scan_number_length:
  "scan_number cs = Some (t, rest) \<Longrightarrow> length rest < length cs"
proof -
  assume a: "scan_number cs = Some (t, rest)"
  obtain neg cs1 where s1: "scan_sign cs = (neg, cs1)" by (cases "scan_sign cs")
  from a s1 obtain ip cs2 where s2: "scan_int cs1 = Some (ip, cs2)"
    by (auto simp: scan_number_def split: option.splits)
  from a s1 s2 obtain fp cs3 where s3: "scan_frac cs2 = Some (fp, cs3)"
    by (auto simp: scan_number_def split: option.splits)
  from a s1 s2 s3 obtain ex where s4: "scan_exp cs3 = Some (ex, rest)"
    by (auto simp: scan_number_def split: option.splits)
  from scan_sign_length [OF s1] scan_int_length [OF s2] scan_frac_length [OF s3]
    scan_exp_length [OF s4]
  show ?thesis by simp
qed

text \<open>
  The token sequence of a text; \<open>None\<close> when some character starts no token.
  Whitespace (space, tab, line feed, carriage return) separates tokens.
\<close>

function lex :: "jsstring \<Rightarrow> token list option" where
  "lex [] = Some []"
| "lex (c # cs) =
     (if is_ws c then lex cs
      else if c = 0x7B then map_option (Cons TLBrace) (lex cs)
      else if c = 0x7D then map_option (Cons TRBrace) (lex cs)
      else if c = 0x5B then map_option (Cons TLBracket) (lex cs)
      else if c = 0x5D then map_option (Cons TRBracket) (lex cs)
      else if c = 0x3A then map_option (Cons TColon) (lex cs)
      else if c = 0x2C then map_option (Cons TComma) (lex cs)
      else if c = 0x22 then
        (case scan_string cs of
           None \<Rightarrow> None
         | Some (s, rest) \<Rightarrow> map_option (Cons (TString s)) (lex rest))
      else if c = 0x2D \<or> is_digit c then
        (case scan_number (c # cs) of
           None \<Rightarrow> None
         | Some (n, rest) \<Rightarrow> map_option (Cons n) (lex rest))
      else if take 4 (c # cs) = js ''true'' then map_option (Cons TTrue) (lex (drop 3 cs))
      else if take 5 (c # cs) = js ''false'' then map_option (Cons TFalse) (lex (drop 4 cs))
      else if take 4 (c # cs) = js ''null'' then map_option (Cons TNull) (lex (drop 3 cs))
      else None)"
  by pat_completeness auto
termination
proof (relation "measure length")
  fix c cs x2 x y
  assume "scan_number (c # cs) = Some x2" "(x, y) = x2"
  then show "(y, c # cs) \<in> measure length"
    using scan_number_length [of "c # cs" x y] by simp
qed (auto dest: scan_string_length)

declare lex.simps(2) [simp del]

subsection \<open>The parser\<close>

text \<open>
  A pushdown parser over the tokens. A frame is a container being read: an array with
  the elements read so far, or an object with the members read so far and the key whose
  value comes next (both latest first). \<open>parse_value\<close> expects a value;
  \<open>parse_after v\<close> has just read the value \<open>v\<close>.
\<close>

datatype frame =
    InArray "json list"
  | InObject "(jsstring \<times> json) list" jsstring

fun token_json :: "token \<Rightarrow> json option" where
  "token_json (TString s) = Some (JString s)"
| "token_json (TNumber neg m e) = Some (JNumber neg m e)"
| "token_json TTrue = Some (JBool True)"
| "token_json TFalse = Some (JBool False)"
| "token_json TNull = Some JNull"
| "token_json t = None"

fun parse_value :: "frame list \<Rightarrow> token list \<Rightarrow> json option"
  and parse_after :: "json \<Rightarrow> frame list \<Rightarrow> token list \<Rightarrow> json option" where
  "parse_value stk [] = None"
| "parse_value stk (t # ts) =
     (if t = TLBracket then
        (case ts of
           TRBracket # ts' \<Rightarrow> parse_after (JArray []) stk ts'
         | _ \<Rightarrow> parse_value (InArray [] # stk) ts)
      else if t = TLBrace then
        (case ts of
           TRBrace # ts' \<Rightarrow> parse_after (JObject []) stk ts'
         | TString k # TColon # ts' \<Rightarrow> parse_value (InObject [] k # stk) ts'
         | _ \<Rightarrow> None)
      else
        (case token_json t of
           None \<Rightarrow> None
         | Some v \<Rightarrow> parse_after v stk ts))"
| "parse_after v [] ts = (if ts = [] then Some v else None)"
| "parse_after v (InArray acc # stk) ts =
     (case ts of
        TComma # ts' \<Rightarrow> parse_value (InArray (v # acc) # stk) ts'
      | TRBracket # ts' \<Rightarrow> parse_after (JArray (rev (v # acc))) stk ts'
      | _ \<Rightarrow> None)"
| "parse_after v (InObject acc k # stk) ts =
     (case ts of
        TComma # TString k' # TColon # ts' \<Rightarrow> parse_value (InObject ((k, v) # acc) k' # stk) ts'
      | TRBrace # ts' \<Rightarrow> parse_after (JObject (rev ((k, v) # acc))) stk ts'
      | _ \<Rightarrow> None)"

text \<open>\<open>JSON.parse\<close>: the value of a text, or a \<open>SyntaxError\<close>.\<close>

definition JSON_parse :: "jsstring \<Rightarrow> exn + json" where
  "JSON_parse text =
     (case lex text of
        None \<Rightarrow> Inl SyntaxError
      | Some ts \<Rightarrow> (case parse_value [] ts of None \<Rightarrow> Inl SyntaxError | Some v \<Rightarrow> Inr v))"

section \<open>The credential record and the token file\<close>

record Credentials =
  idToken :: jsstring
  accessToken :: jsstring
  refreshToken :: jsstring

text \<open>
  \<open>JSON.stringify\<close> at the type of its one call, \<^verbatim>\<open>Credentials | null\<close>: the text
  \<open>null\<close>, or the object's members in the order the object literal of
  \<open>getCredentialsFromSession\<close> creates them, with no whitespace.
\<close>

definition JSON_stringify :: "Credentials option \<Rightarrow> jsstring" where
  "JSON_stringify creds =
     (case creds of
        None \<Rightarrow> js ''null''
      | Some r \<Rightarrow>
          [0x7B] @ QuoteJSONString (js ''idToken'') @ [0x3A] @ QuoteJSONString (idToken r) @
          [0x2C] @ QuoteJSONString (js ''accessToken'') @ [0x3A] @ QuoteJSONString (accessToken r) @
          [0x2C] @ QuoteJSONString (js ''refreshToken'') @ [0x3A] @ QuoteJSONString (refreshToken r) @
          [0x7D])"

text \<open>
  The file system, by path: no entry, an entry that reads as a text (its bytes decoded
  as UTF-8), or an entry whose read throws (a directory, a file without permission).
\<close>

type_synonym filesystem = "jsstring \<rightharpoonup> error + jsstring"

definition existsSync :: "filesystem \<Rightarrow> jsstring \<Rightarrow> bool" where
  "existsSync fs p = (fs p \<noteq> None)"

definition readFileSync :: "filesystem \<Rightarrow> jsstring \<Rightarrow> error + jsstring" where
  "readFileSync fs p =
     (case fs p of
        None \<Rightarrow>
          Inl (Err (js ''Error: ENOENT: no such file or directory, open '' @ [0x27] @ p @ [0x27]))
      | Some r \<Rightarrow> r)"

text \<open>
  What a text becomes when it is written as UTF-8 and read back: a surrogate that is not
  half of a pair has no UTF-8 encoding and comes back as U+FFFD.
\<close>

fun toWellFormed :: "jsstring \<Rightarrow> jsstring" where
  "toWellFormed [] = []"
| "toWellFormed [c] = (if is_lead c \<or> is_trail c then [0xFFFD] else [c])"
| "toWellFormed (c # d # cs) =
     (if is_lead c \<and> is_trail d then c # d # toWellFormed cs
      else if is_lead c \<or> is_trail c then 0xFFFD # toWellFormed (d # cs)
      else c # toWellFormed (d # cs))"

declare toWellFormed.simps(3) [simp del]

text \<open>
  \<open>fs.writeFileSync(path, text)\<close>: throws the error \<open>failure\<close> gives for the path, if
  any, and otherwise replaces the file's content.
\<close>

definition writeFileSync ::
  "(jsstring \<Rightarrow> error option) \<Rightarrow> filesystem \<Rightarrow> jsstring \<Rightarrow> jsstring \<Rightarrow> error + filesystem" where
  "writeFileSync failure fs p text =
     (case failure p of
        Some e \<Rightarrow> Inl e
      | None \<Rightarrow> Inr (fs(p \<mapsto> Inr (toWellFormed text))))"

section \<open>The provider, the configuration and the state\<close>

record config =
  email :: jsstring
  password :: jsstring
  mfaPort :: nat

text \<open>The constants of \<^verbatim>\<open>./const\<close>, which is not among the sources: parameters.\<close>

record constants =
  COGNITO_AWS_REGION :: jsstring
  COGNITO_USER_POOL_ID :: jsstring
  COGNITO_USER_POOL_CLIENT :: jsstring
  API_HOST :: jsstring
  API_USER_AGENT :: jsstring

record CognitoUserSession =
  idToken_jwtToken :: jsstring
  accessToken_jwtToken :: jsstring
  refreshToken_token :: jsstring

text \<open>
  A user object of the provider SDK, as far as the source reads it: its
  \<open>challengeName\<close> (\<open>None\<close> when undefined) and what its \<open>getSession\<close> calls back
  with, an error or a session.
\<close>

record CognitoUser =
  challengeName :: "jsstring option"
  getSession :: "error + CognitoUserSession"

text \<open>
  Everything outside the module that a run of the login depends on. The provider's
  answers are not functions of the arguments alone, so the calls that are made more than
  once take the number of earlier calls: \<open>Auth_sendCustomChallengeAnswer w k user answer\<close>
  is the outcome of call number \<open>k\<close> (\<open>Some e\<close>: it throws \<open>e\<close>), and
  \<open>Auth_currentAuthenticatedUser w k\<close> likewise. \<open>new_CognitoUser\<close> stands for lines
  49 to 72 of \<open>logInWithStoredCreds\<close>: the SDK's constructors, which may throw, and the
  user object they give. \<open>listen_error p\<close> is the error with which the operating
  system refuses the port \<open>p\<close> to the listener, if any (the port is in use, or the
  process may not bind it). \<open>submitted\<close> are the codes posted to \<^verbatim>\<open>/submitmfa\<close>, in
  order, each posted while the verify loop waits for one (the source handles no other
  order); they reach the module only while the listener listens. \<open>write_failure p\<close> is
  the error that \<open>fs.writeFileSync\<close> throws for the path \<open>p\<close>, if any.
\<close>

record world =
  consts_of :: constants
  storagePath :: jsstring
  ip_address :: jsstring
  new_CognitoUser :: "jsstring \<Rightarrow> json option \<Rightarrow> json option \<Rightarrow> json option \<Rightarrow> error + CognitoUser"
  Auth_signIn :: "jsstring \<Rightarrow> jsstring \<Rightarrow> error + CognitoUser"
  Auth_sendCustomChallengeAnswer :: "nat \<Rightarrow> CognitoUser \<Rightarrow> jsstring \<Rightarrow> error option"
  Auth_currentAuthenticatedUser :: "nat \<Rightarrow> error + CognitoUser"
  listen_error :: "nat \<Rightarrow> error option"
  submitted :: "jsstring list"
  write_failure :: "jsstring \<Rightarrow> error option"

datatype level = Debug | Info | Warn | Error

text \<open>What a run does that can be observed from outside, in order.\<close>

datatype event =
    Log level jsstring
  | AmplifyConfigure jsstring jsstring jsstring jsstring
  | SignIn jsstring jsstring
  | ChallengeAnswer jsstring
  | Listen nat
  | Redirect jsstring
  | CloseAfter nat
  | WriteFile jsstring jsstring
  | UnhandledRejection error

text \<open>
  The state a run changes: the module's variable \<open>idToken\<close> (\<open>None\<close>: undefined), the
  file system, the events so far, and the numbers of provider calls made.
\<close>

record state =
  g_idToken :: "jsstring option"
  files :: filesystem
  trace :: "event list"
  n_answers :: nat
  n_lookups :: nat

definition emit :: "event \<Rightarrow> state \<Rightarrow> state" where
  "emit e s = s\<lparr>trace := trace s @ [e]\<rparr>"

definition log :: "level \<Rightarrow> jsstring \<Rightarrow> state \<Rightarrow> state" where
  "log l msg s = emit (Log l msg) s"

text \<open>
  How a call of \<open>kwiksetLogin\<close> ends: its promise is fulfilled, is rejected with a
  thrown value, or is never settled (the flow waits for a code that does not come). The
  fourth end is that of the process: an error is thrown outside the call, where nothing
  of the module catches it, while the promise is not settled.
\<close>

datatype outcome = Returned | Threw exn | Pending | Uncaught error

section \<open>The module\<close>

text \<open>
  \<open>getCredentialsFromSession\<close> (lines 26 to 41): \<^verbatim>\<open>null\<close> when \<open>getSession\<close> calls
  back with an error, the three tokens of the session otherwise.
\<close>

definition getCredentialsFromSession :: "CognitoUser \<Rightarrow> Credentials option" where
  "getCredentialsFromSession user =
     (case getSession user of
        Inl err \<Rightarrow> None
      | Inr session \<Rightarrow>
          Some \<lparr>idToken = idToken_jwtToken session,
                accessToken = accessToken_jwtToken session,
                refreshToken = refreshToken_token session\<rparr>)"

text \<open>\<open>logInWithStoredCreds\<close> (lines 43 to 75).\<close>

definition logInWithStoredCreds ::
  "world \<Rightarrow> config \<Rightarrow> json option \<Rightarrow> json option \<Rightarrow> json option \<Rightarrow> error + Credentials option" where
  "logInWithStoredCreds w config idTok accessTok refreshTok =
     (case new_CognitoUser w (email config) idTok accessTok refreshTok of
        Inl e \<Rightarrow> Inl e
      | Inr user \<Rightarrow> Inr (getCredentialsFromSession user))"

text \<open>
  The load step (lines 81 to 84): \<open>savedCreds\<close> stays undefined (\<open>None\<close>) when the
  file does not exist; a failing read or parse throws.
\<close>

definition load_step :: "filesystem \<Rightarrow> jsstring \<Rightarrow> exn + json option" where
  "load_step fs kwiksetSavePath =
     (if existsSync fs kwiksetSavePath then
        (case readFileSync fs kwiksetSavePath of
           Inl e \<Rightarrow> Inl (External e)
         | Inr text \<Rightarrow> (case JSON_parse text of Inl e \<Rightarrow> Inl e | Inr v \<Rightarrow> Inr (Some v)))
      else Inr None)"

text \<open>The save step (line 173).\<close>

definition save_step :: "world \<Rightarrow> jsstring \<Rightarrow> Credentials option \<Rightarrow> state \<Rightarrow> error + state" where
  "save_step w kwiksetSavePath creds s =
     (case writeFileSync (write_failure w) (files s) kwiksetSavePath (JSON_stringify creds) of
        Inl e \<Rightarrow> Inl e
      | Inr fs' \<Rightarrow>
          Inr (emit (WriteFile kwiksetSavePath (JSON_stringify creds)) (s\<lparr>files := fs'\<rparr>)))"

text \<open>
  The verify loop (lines 147 to 169) over the codes still to be posted. Each turn waits
  for a code; with none left the loop waits for ever. A posted code is logged and sent
  to the provider (line 152, outside the \<^verbatim>\<open>try\<close>: if the call throws, the listener's
  promise is rejected with nobody to handle it, \<open>resolve\<close> is never called, and no later
  code is listened for). Then the authenticated user is looked up: if the lookup throws,
  the turn resolves to \<^verbatim>\<open>false\<close>, the poster is redirected to the form and the loop
  takes another turn; otherwise \<open>credentials\<close> is assigned, the poster is redirected to
  the success page and the loop ends.
\<close>

datatype verify_result = CodeVerified "Credentials option" | NeverVerified

fun verify_loop :: "world \<Rightarrow> CognitoUser \<Rightarrow> jsstring list \<Rightarrow> state \<Rightarrow> verify_result \<times> state" where
  "verify_loop w user [] s = (NeverVerified, s)"
| "verify_loop w user (code # codes) s =
     (let s1 = log Info (js ''Input received: '' @ code @ js ''. Verifying...'') s;
          answer = js ''answerType:verifyCode,medium:phone,codeType:login,code:'' @ code;
          s2 = emit (ChallengeAnswer answer) s1;
          s3 = s2\<lparr>n_answers := Suc (n_answers s2)\<rparr>
      in case Auth_sendCustomChallengeAnswer w (n_answers s2) user answer of
           Some e \<Rightarrow> (NeverVerified, emit (UnhandledRejection e) s3)
         | None \<Rightarrow>
             (let s4 = s3\<lparr>n_lookups := Suc (n_lookups s3)\<rparr>
              in case Auth_currentAuthenticatedUser w (n_lookups s3) of
                   Inl err \<Rightarrow>
                     verify_loop w user codes
                       (emit (Redirect (js ''/?error=bad+code''))
                          (log Error
                             (js ''Failed to verify mfa code: '' @ render_error err @ js '' - Try again.'')
                             s4))
                 | Inr authenticatedUser \<Rightarrow>
                     (CodeVerified (getCredentialsFromSession authenticatedUser),
                      emit (Redirect (js ''/success.html'')) s4)))"

text \<open>Lines 180 to 181: the module's \<open>idToken\<close> is assigned \<^verbatim>\<open>credentials?.idToken\<close>.\<close>

definition finish :: "Credentials option \<Rightarrow> state \<Rightarrow> outcome \<times> state" where
  "finish credentials s =
     (Returned, log Info (js ''Logged in!'') (s\<lparr>g_idToken := map_option idToken credentials\<rparr>))"

text \<open>
  The custom challenge (lines 118 to 174). \<open>config.mfaPort\<close> is a number of the
  configuration, here a natural number. Line 143 calls \<open>app.listen\<close>, which hands
  the port and the callback to \<open>listen\<close> of a new \<open>http.Server\<close>: a port above 65535
  makes that call throw, so \<open>kwiksetLogin\<close> throws before the loop; a port that the
  operating system refuses makes the server emit \<open>error\<close>, for which the source
  registers no listener, so the runtime throws the error outside the call, the callback
  of line 144 never runs and no code is ever received. Otherwise the callback logs the
  address and the verify loop handles the codes. The success responder (lines 132 to
  136) redirects first and sets the timer that closes the listener when it is resumed,
  which is when the flow next suspends: at the lookup of line 172.
\<close>

definition mfa_challenge :: "world \<Rightarrow> config \<Rightarrow> jsstring \<Rightarrow> CognitoUser \<Rightarrow> state \<Rightarrow> outcome \<times> state" where
  "mfa_challenge w config kwiksetSavePath user s =
     (let answer = js ''answerType:generateCode,medium:phone,codeType:login'';
          s1 = emit (ChallengeAnswer answer) s;
          s2 = s1\<lparr>n_answers := Suc (n_answers s1)\<rparr>
      in case Auth_sendCustomChallengeAnswer w (n_answers s1) user answer of
           Some e \<Rightarrow> (Threw (External e), s2)
         | None \<Rightarrow>
             (let s3 = log Info (js ''Generated mfa code, waiting for input'') s2;
                  s4 = emit (Listen (mfaPort config)) s3
              in if 65535 < mfaPort config then (Threw (BadPort (mfaPort config)), s4)
                 else case listen_error w (mfaPort config) of
                   Some e \<Rightarrow> (Uncaught e, s4)
                 | None \<Rightarrow>
                     (let s5 = log Info
                                 (js ''MFA server listening on http://'' @ ip_address w @ js '':'' @
                                  show_nat (mfaPort config) @ js ''/index.html'') s4
                      in case verify_loop w user (submitted w) s5 of
                           (NeverVerified, s6) \<Rightarrow> (Pending, s6)
                         | (CodeVerified credentials, s6) \<Rightarrow>
                             (let s7 = log Info (js ''Code verified!'') s6;
                                  s8 = emit (CloseAfter 7000) s7;
                                  s9 = s8\<lparr>n_lookups := Suc (n_lookups s8)\<rparr>
                              in case Auth_currentAuthenticatedUser w (n_lookups s8) of
                                   Inl e \<Rightarrow> (Threw (External e), s9)
                                 | Inr u \<Rightarrow>
                                     (case save_step w kwiksetSavePath (getCredentialsFromSession u) s9 of
                                        Inl e \<Rightarrow> (Threw (External e), s9)
                                      | Inr s10 \<Rightarrow>
                                          finish credentials
                                            (log Debug (js ''Credentials saved!'') s10))))))"

text \<open>The password login (lines 108 to 177).\<close>

definition password_login :: "world \<Rightarrow> config \<Rightarrow> jsstring \<Rightarrow> state \<Rightarrow> outcome \<times> state" where
  "password_login w config kwiksetSavePath s =
     (let s1 = log Warn (js ''Failed to login with cached tokens, reauthenticating...'') s;
          s2 = emit (SignIn (email config) (password config)) s1
      in case Auth_signIn w (email config) (password config) of
           Inl err \<Rightarrow>
             (Returned,
              log Error
                (js ''Failed to log in: '' @ render_error err @
                 js '' - Make sure your username and password are correct.'') s2)
         | Inr user \<Rightarrow>
             if challengeName user = Some (js ''CUSTOM_CHALLENGE'')
             then mfa_challenge w config kwiksetSavePath user s2
             else finish None
                    (log Error (js ''Unknown auth challenge name '' @ render_opt (challengeName user)) s2))"

text \<open>Lines 99 to 106: the stored credentials are tried when \<open>savedCreds\<close> is truthy.\<close>

definition cached_login :: "world \<Rightarrow> config \<Rightarrow> json option \<Rightarrow> error + Credentials option" where
  "cached_login w config savedCreds =
     (case savedCreds of
        None \<Rightarrow> Inr None
      | Some v \<Rightarrow>
          if truthy v
          then logInWithStoredCreds w config
                 (get_prop v (js ''idToken'')) (get_prop v (js ''accessToken''))
                 (get_prop v (js ''refreshToken''))
          else Inr None)"

text \<open>Line 78: the storage path, a backslash and the file name.\<close>

definition kwiksetSavePath_of :: "world \<Rightarrow> jsstring" where
  "kwiksetSavePath_of w = storagePath w @ [0x5C] @ js ''homebridge-kwikset-halo.json''"

text \<open>\<open>kwiksetLogin\<close> (lines 77 to 182).\<close>

definition kwiksetLogin :: "world \<Rightarrow> config \<Rightarrow> state \<Rightarrow> outcome \<times> state" where
  "kwiksetLogin w config s =
     (let kwiksetSavePath = kwiksetSavePath_of w;
          s1 = log Debug (js ''Storage path: '' @ kwiksetSavePath) s
      in case load_step (files s1) kwiksetSavePath of
           Inl e \<Rightarrow> (Threw e, s1)
         | Inr savedCreds \<Rightarrow>
             (let s2 = log Debug (js ''Running login...'') s1;
                  s3 = emit (AmplifyConfigure (COGNITO_AWS_REGION (consts_of w))
                               (COGNITO_USER_POOL_ID (consts_of w))
                               (COGNITO_USER_POOL_CLIENT (consts_of w)) (js ''CUSTOM_AUTH'')) s2;
                  s4 = log Debug (js ''Logging in via cached tokens'') s3
              in case cached_login w config savedCreds of
                   Inl e \<Rightarrow> (Threw (External e), s4)
                 | Inr (Some credentials) \<Rightarrow> finish (Some credentials) s4
                 | Inr None \<Rightarrow> password_login w config kwiksetSavePath s4))"

text \<open>
  \<open>apiRequest\<close> (lines 184 to 196): the request handed to \<open>fetch\<close>, and whatever
  \<open>fetch\<close> gives for it. The template literal renders an undefined \<open>idToken\<close> as the
  text \<open>undefined\<close>.
\<close>

record 'b opts =
  path :: jsstring
  http_method :: jsstring
  body :: "'b option"

record 'b request =
  req_url :: jsstring
  req_method :: jsstring
  req_headers :: "(jsstring \<times> jsstring) list"
  req_body :: "'b option"

definition apiRequest_request :: "constants \<Rightarrow> state \<Rightarrow> 'b opts \<Rightarrow> 'b request" where
  "apiRequest_request K s opts =
     \<lparr>req_url = js ''https://'' @ API_HOST K @ js ''/'' @ path opts,
      req_method = http_method opts,
      req_headers =
        [(js ''Host'', API_HOST K),
         (js ''User-Agent'', API_USER_AGENT K),
         (js ''Accept-Encoding'', js ''gzip''),
         (js ''Authorization'', js ''Bearer '' @ render_opt (g_idToken s))],
      req_body = body opts\<rparr>"

definition apiRequest :: "constants \<Rightarrow> ('b request \<Rightarrow> 'r) \<Rightarrow> state \<Rightarrow> 'b opts \<Rightarrow> 'r" where
  "apiRequest K fetch s opts = fetch (apiRequest_request K s opts)"

section \<open>Observations on a run\<close>

text \<open>
  How often a trace holds an event of one kind. A run from \<open>s\<close> to \<open>s'\<close> has called
  \<open>app.listen\<close> exactly when \<open>listens s'\<close> is more than \<open>listens s\<close> (whether
  the call then gave a listener or not); likewise for
  the timer that closes the listener, for \<open>fs.writeFileSync\<close>, for \<open>Auth.signIn\<close>
  and for the redirects to one URL.
\<close>

fun is_Listen :: "event \<Rightarrow> bool" where
  "is_Listen (Listen p) = True"
| "is_Listen e = False"

fun is_CloseAfter :: "event \<Rightarrow> bool" where
  "is_CloseAfter (CloseAfter t) = True"
| "is_CloseAfter e = False"

fun is_WriteFile :: "event \<Rightarrow> bool" where
  "is_WriteFile (WriteFile p t) = True"
| "is_WriteFile e = False"

fun is_SignIn :: "event \<Rightarrow> bool" where
  "is_SignIn (SignIn u p) = True"
| "is_SignIn e = False"

fun is_Redirect_to :: "jsstring \<Rightarrow> event \<Rightarrow> bool" where
  "is_Redirect_to url (Redirect u) = (u = url)"
| "is_Redirect_to url e = False"

definition listens :: "state \<Rightarrow> nat" where
  "listens s = length (filter is_Listen (trace s))"

definition closes :: "state \<Rightarrow> nat" where
  "closes s = length (filter is_CloseAfter (trace s))"

definition writes :: "state \<Rightarrow> nat" where
  "writes s = length (filter is_WriteFile (trace s))"

definition sign_ins :: "state \<Rightarrow> nat" where
  "sign_ins s = length (filter is_SignIn (trace s))"

definition redirects_to :: "jsstring \<Rightarrow> state \<Rightarrow> nat" where
  "redirects_to url s = length (filter (is_Redirect_to url) (trace s))"

text \<open>The state after lines 78 to 97: four events more, nothing else changed.\<close>

definition prologue :: "world \<Rightarrow> state \<Rightarrow> state" where
  "prologue w s =
     log Debug (js ''Logging in via cached tokens'')
       (emit (AmplifyConfigure (COGNITO_AWS_REGION (consts_of w)) (COGNITO_USER_POOL_ID (consts_of w))
                (COGNITO_USER_POOL_CLIENT (consts_of w)) (js ''CUSTOM_AUTH''))
          (log Debug (js ''Running login...'')
             (log Debug (js ''Storage path: '' @ kwiksetSavePath_of w) s)))"

text \<open>
  The cached session is absent or invalid: the load step throws nothing, and the cached
  login is skipped or gives \<^verbatim>\<open>null\<close>.
\<close>

definition cached_session_fails :: "world \<Rightarrow> config \<Rightarrow> state \<Rightarrow> bool" where
  "cached_session_fails w config s =
     (case load_step (files s) (kwiksetSavePath_of w) of
        Inl e \<Rightarrow> False
      | Inr savedCreds \<Rightarrow> cached_login w config savedCreds = Inr None)"

text \<open>The answers sent to the provider at lines 120 and 154.\<close>

definition generate_answer :: jsstring where
  "generate_answer = js ''answerType:generateCode,medium:phone,codeType:login''"

definition verify_answer :: "jsstring \<Rightarrow> jsstring" where
  "verify_answer code = js ''answerType:verifyCode,medium:phone,codeType:login,code:'' @ code"

text \<open>
  The provider rejects each of the codes, the first of them as answer number \<open>ka\<close> and
  lookup number \<open>kl\<close>: the answer is sent without an error and the lookup of the
  authenticated user throws, which line 162 turns into \<^verbatim>\<open>resolve(false)\<close>.
\<close>

fun rejected :: "world \<Rightarrow> CognitoUser \<Rightarrow> jsstring list \<Rightarrow> nat \<Rightarrow> nat \<Rightarrow> bool" where
  "rejected w user [] ka kl = True"
| "rejected w user (code # codes) ka kl =
     (Auth_sendCustomChallengeAnswer w ka user (verify_answer code) = None \<and>
      isl (Auth_currentAuthenticatedUser w kl) \<and>
      rejected w user codes (Suc ka) (Suc kl))"

text \<open>The listener starts: the port is one the runtime and the operating system accept.\<close>

definition listener_starts :: "world \<Rightarrow> config \<Rightarrow> bool" where
  "listener_starts w config = (mfaPort config \<le> 65535 \<and> listen_error w (mfaPort config) = None)"

text \<open>
  A login from state \<open>s\<close> reaches the verify loop: the cached session fails, the
  sign-in gives \<open>user\<close> with the custom challenge, the request for a code is sent
  without an error, and the listener starts. \<open>challenge_state\<close> is the state in which
  the loop is entered.
\<close>

definition reaches_challenge :: "world \<Rightarrow> config \<Rightarrow> state \<Rightarrow> CognitoUser \<Rightarrow> bool" where
  "reaches_challenge w config s user =
     (cached_session_fails w config s \<and>
      Auth_signIn w (email config) (password config) = Inr user \<and>
      challengeName user = Some (js ''CUSTOM_CHALLENGE'') \<and>
      Auth_sendCustomChallengeAnswer w (n_answers s) user generate_answer = None \<and>
      listener_starts w config)"

definition challenge_state :: "world \<Rightarrow> config \<Rightarrow> state \<Rightarrow> state" where
  "challenge_state w config s =
     log Info
       (js ''MFA server listening on http://'' @ ip_address w @ js '':'' @
        show_nat (mfaPort config) @ js ''/index.html'')
       (emit (Listen (mfaPort config))
          (log Info (js ''Generated mfa code, waiting for input'')
             ((emit (ChallengeAnswer generate_answer)
                 (emit (SignIn (email config) (password config))
                    (log Warn (js ''Failed to login with cached tokens, reauthenticating...'')
                       (prologue w s))))
              \<lparr>n_answers := Suc (n_answers s)\<rparr>)))"

text \<open>The record of a session, and the JSON value of a record.\<close>

definition credentials_of :: "CognitoUserSession \<Rightarrow> Credentials" where
  "credentials_of session =
     \<lparr>idToken = idToken_jwtToken session, accessToken = accessToken_jwtToken session,
      refreshToken = refreshToken_token session\<rparr>"

definition json_of :: "Credentials \<Rightarrow> json" where
  "json_of r =
     JObject [(js ''idToken'', JString (idToken r)),
              (js ''accessToken'', JString (accessToken r)),
              (js ''refreshToken'', JString (refreshToken r))]"

text \<open>The options of \<^verbatim>\<open>apiRequest(log, {path: "lock/status", method: "GET"})\<close>.\<close>

definition lock_status :: "'b opts" where
  "lock_status = \<lparr>path = js ''lock/status'', http_method = js ''GET'', body = None\<rparr>"

text \<open>A process that has not logged in, with a file system.\<close>

definition initial_state :: "filesystem \<Rightarrow> state" where
  "initial_state fs = \<lparr>g_idToken = None, files = fs, trace = [], n_answers = 0, n_lookups = 0\<rparr>"

section \<open>Example inputs\<close>

text \<open>
  A provider that asks for the custom challenge, rejects the first two codes and has
  an authenticated user with a session from the third lookup on; three codes are
  posted. The variants: a valid cached session, a wrong password, a challenge of another
  name, and a second fetch that gives no session.
\<close>

definition demo_creds :: Credentials where
  "demo_creds = \<lparr>idToken = js ''id-1'', accessToken = js ''access-1'', refreshToken = js ''refresh-1''\<rparr>"

definition demo_session :: CognitoUserSession where
  "demo_session =
     \<lparr>idToken_jwtToken = js ''id-1'', accessToken_jwtToken = js ''access-1'',
      refreshToken_token = js ''refresh-1''\<rparr>"

definition demo_constants :: constants where
  "demo_constants =
     \<lparr>COGNITO_AWS_REGION = js ''us-east-1'', COGNITO_USER_POOL_ID = js ''us-east-1_pool'',
      COGNITO_USER_POOL_CLIENT = js ''client'', API_HOST = js ''api.example.com'',
      API_USER_AGENT = js ''agent''\<rparr>"

definition demo_config :: config where
  "demo_config = \<lparr>email = js ''user@example.com'', password = js ''secret'', mfaPort = 47279\<rparr>"

definition expired_user :: CognitoUser where
  "expired_user = \<lparr>challengeName = None, getSession = Inl (Err (js ''Refresh Token has expired''))\<rparr>"

definition challenge_user :: CognitoUser where
  "challenge_user = \<lparr>challengeName = Some (js ''CUSTOM_CHALLENGE''), getSession = Inl (Err (js ''no session''))\<rparr>"

definition session_user :: CognitoUser where
  "session_user = \<lparr>challengeName = None, getSession = Inr demo_session\<rparr>"

definition null_session_user :: CognitoUser where
  "null_session_user = \<lparr>challengeName = None, getSession = Inl (Err (js ''Network error''))\<rparr>"

definition demo_world :: world where
  "demo_world =
     \<lparr>consts_of = demo_constants,
      storagePath = js ''/var/lib/homebridge'',
      ip_address = js ''192.168.1.20'',
      new_CognitoUser = (\<lambda>username i a r. Inr expired_user),
      Auth_signIn = (\<lambda>username pw. Inr challenge_user),
      Auth_sendCustomChallengeAnswer = (\<lambda>k user answer. None),
      Auth_currentAuthenticatedUser =
        (\<lambda>k. if k < 2 then Inl (Err (js ''not authenticated'')) else Inr session_user),
      listen_error = (\<lambda>p. None),
      submitted = [js ''111111'', js ''222222'', js ''333333''],
      write_failure = (\<lambda>p. None)\<rparr>"

definition cached_world :: world where
  "cached_world =
     demo_world\<lparr>new_CognitoUser := (\<lambda>username i a r. Inr session_user)\<rparr>"

definition bad_password_world :: world where
  "bad_password_world =
     demo_world\<lparr>Auth_signIn := (\<lambda>username pw. Inl (Err (js ''NotAuthorizedException: Incorrect username or password.'')))\<rparr>"

definition totp_world :: world where
  "totp_world =
     demo_world\<lparr>Auth_signIn :=
       (\<lambda>username pw. Inr \<lparr>challengeName = Some (js ''SOFTWARE_TOKEN_MFA''),
                            getSession = Inl (Err (js ''no session''))\<rparr>)\<rparr>"

definition null_world :: world where
  "null_world =
     demo_world\<lparr>Auth_currentAuthenticatedUser :=
       (\<lambda>k. if k < 2 then Inl (Err (js ''not authenticated''))
            else if k = 2 then Inr session_user
            else Inr null_session_user)\<rparr>"

text \<open>
  A provider that rejects the code \<open>000000\<close> by failing the call that answers the
  challenge with it, and accepts every other code: the answer is taken and the
  authenticated user has a session. The codes \<open>000000\<close> and \<open>123456\<close> are posted.
\<close>

definition throwing_world :: world where
  "throwing_world =
     demo_world\<lparr>Auth_sendCustomChallengeAnswer :=
                  (\<lambda>k user answer.
                     if answer = js ''answerType:verifyCode,medium:phone,codeType:login,code:000000''
                     then Some (Err (js ''NotAuthorizedException: Incorrect username or password.''))
                     else None),
                Auth_currentAuthenticatedUser := (\<lambda>k. Inr session_user),
                submitted := [js ''000000'', js ''123456'']\<rparr>"

text \<open>A file system whose token file holds a stringified record.\<close>

definition stored_files :: "world \<Rightarrow> Credentials option \<Rightarrow> filesystem" where
  "stored_files w creds = [kwiksetSavePath_of w \<mapsto> Inr (JSON_stringify creds)]"

text \<open>A record whose fields need every kind of escape, a surrogate pair and the empty string.\<close>

definition odd_creds :: Credentials where
  "odd_creds =
     \<lparr>idToken = [0x22, 0x5C, 0x0A, 0x01, 0xD800, 0x41],
      accessToken = [0xD83D, 0xDE00, 0x7F, 0xDC00],
      refreshToken = []\<rparr>"

section \<open>Properties of the JSON functions\<close>

subsection \<open>A quoted string is read back as the string\<close>

lemma hexval_hexdigit:
  assumes "n < 16"
  shows "hexval (hexdigit n) = Some n"
proof (cases "n < 10")
  case True
  then have "unat (of_nat (48 + n) :: 16 word) = 48 + n"
    by (intro of_nat_inverse [OF refl]) simp
  then show ?thesis
    using True by (simp add: hexval_def hexdigit_def word_le_nat_alt)
next
  case False
  have "unat (of_nat (87 + n) :: 16 word) = 87 + n"
    using assms by (intro of_nat_inverse [OF refl]) simp
  then show ?thesis
    using False assms by (simp add: hexval_def hexdigit_def word_le_nat_alt)
qed

lemma nibbles:
  fixes x :: nat
  shows "x div 4096 * 4096 + x div 256 mod 16 * 256 + x div 16 mod 16 * 16 + x mod 16 = x"
proof -
  define a where "a = x div 4096"
  define b where "b = x div 256 mod 16"
  define c where "c = x div 16 mod 16"
  define d where "d = x mod 16"
  define p where "p = x div 16"
  define q where "q = x div 256"
  have "p div 16 = q" by (simp add: p_def q_def div_mult2_eq [symmetric])
  then have 1: "q * 16 + c = p"
    using div_mult_mod_eq [of p 16] by (simp add: c_def p_def)
  have "q div 16 = a" by (simp add: a_def q_def div_mult2_eq [symmetric])
  then have 2: "a * 16 + b = q"
    using div_mult_mod_eq [of q 16] by (simp add: b_def q_def)
  have 3: "p * 16 + d = x"
    using div_mult_mod_eq [of x 16] by (simp add: d_def p_def)
  from 1 2 3 have "a * 4096 + b * 256 + c * 16 + d = x" by linarith
  then show ?thesis by (simp add: a_def b_def c_def d_def)
qed

lemma unat_nibbles:
  fixes c :: "16 word"
  shows "unat c div 4096 * 4096 + unat c div 256 mod 16 * 256 + unat c div 16 mod 16 * 16
           + unat c mod 16 = unat c"
  by (rule nibbles)

lemma unat_top_nibble: "unat (c :: 16 word) div 4096 < 16"
proof -
  have "unat c < 2 ^ LENGTH(16)" by (rule unsigned_less)
  then show ?thesis by simp
qed

lemma hex4_unicode_escape:
  "hex4 (hexdigit (unat c div 4096)) (hexdigit (unat c div 256 mod 16))
        (hexdigit (unat c div 16 mod 16)) (hexdigit (unat c mod 16)) = Some c"
  by (simp add: hex4_def hexval_hexdigit unat_top_nibble unat_nibbles)

lemma scan_unicode_escape:
  "scan_string (unicode_escape c @ xs) = map_option (\<lambda>(s, r). (c # s, r)) (scan_string xs)"
  by (simp add: unicode_escape_def hex4_unicode_escape scan_string.simps(2))

lemma scan_escape_unit:
  "scan_string (escape_unit c @ xs) = map_option (\<lambda>(s, r). (c # s, r)) (scan_string xs)"
  by (simp add: escape_unit_def scan_unicode_escape unescape_def scan_string.simps(2))

lemma lead_literal: "is_lead c \<Longrightarrow> c \<noteq> 0x22 \<and> c \<noteq> 0x5C \<and> \<not> c < 0x20"
  by (auto simp: is_lead_def word_le_nat_alt word_less_nat_alt)

lemma trail_literal: "is_trail c \<Longrightarrow> c \<noteq> 0x22 \<and> c \<noteq> 0x5C \<and> \<not> c < 0x20"
  by (auto simp: is_trail_def word_le_nat_alt word_less_nat_alt)

lemma scan_literal:
  "c \<noteq> 0x22 \<and> c \<noteq> 0x5C \<and> \<not> c < 0x20 \<Longrightarrow>
   scan_string (c # xs) = map_option (\<lambda>(s, r). (c # s, r)) (scan_string xs)"
  by (simp add: scan_string.simps(2))

lemma scan_string_quote: "scan_string (0x22 # rest) = Some ([], rest)"
  by (simp add: scan_string.simps(2))

lemma scan_string_quote_body:
  "scan_string (quote_body s @ 0x22 # rest) = Some (s, rest)"
proof (induction s rule: quote_body.induct)
  case 1
  show ?case by (simp add: scan_string_quote)
next
  case (2 c)
  show ?case by (simp add: scan_escape_unit scan_string_quote)
next
  case (3 c d cs)
  show ?case
  proof (cases "is_lead c \<and> is_trail d")
    case True
    then have ih: "scan_string (quote_body cs @ 0x22 # rest) = Some (cs, rest)"
      by (rule 3)
    from True have q: "quote_body (c # d # cs) = c # d # quote_body cs"
      by simp
    have "scan_string (c # d # quote_body cs @ 0x22 # rest)
        = map_option (\<lambda>(s, r). (c # s, r)) (scan_string (d # quote_body cs @ 0x22 # rest))"
      using True by (intro scan_literal lead_literal) simp
    moreover have "scan_string (d # quote_body cs @ 0x22 # rest)
        = map_option (\<lambda>(s, r). (d # s, r)) (scan_string (quote_body cs @ 0x22 # rest))"
      using True by (intro scan_literal trail_literal) simp
    ultimately show ?thesis
      by (simp only: q ih append_Cons option.map prod.case)
  next
    case False
    then have ih: "scan_string (quote_body (d # cs) @ 0x22 # rest) = Some (d # cs, rest)"
      by (rule 3)
    from False have q: "quote_body (c # d # cs) = escape_unit c @ quote_body (d # cs)"
      by auto
    show ?thesis
      by (simp only: q append_assoc scan_escape_unit ih option.map prod.case)
  qed
qed

subsection \<open>The text of a credential record parses to its fields\<close>

lemma lex_QuoteJSONString:
  "lex (QuoteJSONString s @ rest) = map_option (Cons (TString s)) (lex rest)"
  by (simp add: QuoteJSONString_def lex.simps(2) is_ws_def scan_string_quote_body)

lemma lex_punct:
  "lex (0x7B # rest) = map_option (Cons TLBrace) (lex rest)"
  "lex (0x7D # rest) = map_option (Cons TRBrace) (lex rest)"
  "lex (0x3A # rest) = map_option (Cons TColon) (lex rest)"
  "lex (0x2C # rest) = map_option (Cons TComma) (lex rest)"
  by (simp_all add: lex.simps(2) is_ws_def)

lemma lex_stringify:
  "lex (JSON_stringify (Some r)) =
     Some [TLBrace, TString (js ''idToken''), TColon, TString (idToken r), TComma,
           TString (js ''accessToken''), TColon, TString (accessToken r), TComma,
           TString (js ''refreshToken''), TColon, TString (refreshToken r), TRBrace]"
  by (simp add: JSON_stringify_def lex_QuoteJSONString lex_punct)

lemma JSON_parse_stringify:
  "JSON_parse (JSON_stringify (Some r)) =
     Inr (JObject [(js ''idToken'', JString (idToken r)),
                   (js ''accessToken'', JString (accessToken r)),
                   (js ''refreshToken'', JString (refreshToken r))])"
  by (simp add: JSON_parse_def lex_stringify)

lemma JSON_parse_null: "JSON_parse (JSON_stringify None) = Inr JNull"
  by (simp add: JSON_parse_def JSON_stringify_def js_def lex.simps(2) is_ws_def is_digit_def)

subsection \<open>The text of a credential record survives the UTF-8 encoding\<close>

lemma toWellFormed_plain:
  "\<not> is_lead c \<Longrightarrow> \<not> is_trail c \<Longrightarrow> toWellFormed (c # xs) = c # toWellFormed xs"
  by (cases xs) (simp_all add: toWellFormed.simps(3))

lemma toWellFormed_pair:
  "is_lead c \<Longrightarrow> is_trail d \<Longrightarrow> toWellFormed (c # d # xs) = c # d # toWellFormed xs"
  by (simp add: toWellFormed.simps(3))

lemma small_plain: "unat c < 128 \<Longrightarrow> \<not> is_lead c \<and> \<not> is_trail c"
  by (simp add: is_lead_def is_trail_def word_le_nat_alt)

lemma unat_hexdigit: "n < 16 \<Longrightarrow> unat (hexdigit n) < 128"
proof -
  assume n: "n < 16"
  have "unat (of_nat (48 + n) :: 16 word) = 48 + n"
    using n by (intro of_nat_inverse [OF refl]) simp
  moreover have "unat (of_nat (87 + n) :: 16 word) = 87 + n"
    using n by (intro of_nat_inverse [OF refl]) simp
  ultimately show ?thesis
    using n by (simp add: hexdigit_def)
qed

lemma hexdigit_plain: "n < 16 \<Longrightarrow> \<not> is_lead (hexdigit n) \<and> \<not> is_trail (hexdigit n)"
  by (intro small_plain unat_hexdigit)

lemma toWellFormed_unicode_escape:
  "toWellFormed (unicode_escape c @ xs) = unicode_escape c @ toWellFormed xs"
  by (simp add: unicode_escape_def toWellFormed_plain hexdigit_plain unat_top_nibble small_plain)

lemma toWellFormed_escape_unit:
  "toWellFormed (escape_unit c @ xs) = escape_unit c @ toWellFormed xs"
  by (simp add: escape_unit_def toWellFormed_unicode_escape toWellFormed_plain small_plain)

lemma toWellFormed_quote_body:
  "toWellFormed (quote_body s @ xs) = quote_body s @ toWellFormed xs"
proof (induction s rule: quote_body.induct)
  case 1
  show ?case by simp
next
  case (2 c)
  show ?case by (simp add: toWellFormed_escape_unit)
next
  case (3 c d cs)
  show ?case
  proof (cases "is_lead c \<and> is_trail d")
    case True
    then have "toWellFormed (quote_body cs @ xs) = quote_body cs @ toWellFormed xs"
      by (rule 3)
    then show ?thesis using True by (simp add: toWellFormed_pair)
  next
    case False
    then have ih: "toWellFormed (quote_body (d # cs) @ xs) = quote_body (d # cs) @ toWellFormed xs"
      by (rule 3)
    from False have q: "quote_body (c # d # cs) = escape_unit c @ quote_body (d # cs)"
      by auto
    show ?thesis
      by (simp only: q append_assoc toWellFormed_escape_unit ih)
  qed
qed

lemma toWellFormed_QuoteJSONString:
  "toWellFormed (QuoteJSONString s @ xs) = QuoteJSONString s @ toWellFormed xs"
  by (simp add: QuoteJSONString_def toWellFormed_plain toWellFormed_quote_body small_plain)

lemma toWellFormed_stringify: "toWellFormed (JSON_stringify creds) = JSON_stringify creds"
proof (cases creds)
  case None
  then show ?thesis
    by (simp add: JSON_stringify_def js_def toWellFormed_plain small_plain)
next
  case (Some r)
  then show ?thesis
    by (simp add: JSON_stringify_def toWellFormed_QuoteJSONString toWellFormed_plain small_plain)
qed

subsection \<open>Loading what was written\<close>

lemma load_after_write:
  "load_step (fs(p \<mapsto> Inr (toWellFormed (JSON_stringify creds)))) p =
     Inr (Some (case creds of
                  None \<Rightarrow> JNull
                | Some r \<Rightarrow>
                    JObject [(js ''idToken'', JString (idToken r)),
                             (js ''accessToken'', JString (accessToken r)),
                             (js ''refreshToken'', JString (refreshToken r))]))"
  by (cases creds)
    (simp_all add: load_step_def existsSync_def readFileSync_def toWellFormed_stringify
      JSON_parse_stringify JSON_parse_null)

lemma load_stored_files:
  "load_step (stored_files w creds) (kwiksetSavePath_of w) =
     Inr (Some (case creds of None \<Rightarrow> JNull | Some r \<Rightarrow> json_of r))"
  using load_after_write [of Map.empty "kwiksetSavePath_of w" creds]
  by (cases creds) (simp_all add: stored_files_def toWellFormed_stringify json_of_def)

lemma key_distinct:
  "js ''idToken'' \<noteq> js ''accessToken''" "js ''idToken'' \<noteq> js ''refreshToken''"
  "js ''accessToken'' \<noteq> js ''refreshToken''"
  by (simp_all add: js_def)

lemma js_append: "js (a @ b) = js a @ js b"
  by (simp add: js_def)

lemma getCredentialsFromSession_Inr:
  "getSession u = Inr session \<Longrightarrow> getCredentialsFromSession u = Some (credentials_of session)"
  by (simp add: getCredentialsFromSession_def credentials_of_def)

section \<open>Properties of the run\<close>

subsection \<open>Events and counters\<close>

lemma emit_simps [simp]:
  "g_idToken (emit e s) = g_idToken s"
  "files (emit e s) = files s"
  "trace (emit e s) = trace s @ [e]"
  "n_answers (emit e s) = n_answers s"
  "n_lookups (emit e s) = n_lookups s"
  by (simp_all add: emit_def)

lemma log_simps [simp]:
  "g_idToken (log l m s) = g_idToken s"
  "files (log l m s) = files s"
  "trace (log l m s) = trace s @ [Log l m]"
  "n_answers (log l m s) = n_answers s"
  "n_lookups (log l m s) = n_lookups s"
  by (simp_all add: log_def)

lemma prologue_simps [simp]:
  "g_idToken (prologue w s) = g_idToken s"
  "files (prologue w s) = files s"
  "n_answers (prologue w s) = n_answers s"
  "n_lookups (prologue w s) = n_lookups s"
  "trace (prologue w s) = trace s @
     [Log Debug (js ''Storage path: '' @ kwiksetSavePath_of w),
      Log Debug (js ''Running login...''),
      AmplifyConfigure (COGNITO_AWS_REGION (consts_of w)) (COGNITO_USER_POOL_ID (consts_of w))
        (COGNITO_USER_POOL_CLIENT (consts_of w)) (js ''CUSTOM_AUTH''),
      Log Debug (js ''Logging in via cached tokens'')]"
  by (simp_all add: prologue_def)

lemma finish_simps [simp]:
  "fst (finish c s) = Returned"
  "g_idToken (snd (finish c s)) = map_option idToken c"
  "files (snd (finish c s)) = files s"
  "trace (snd (finish c s)) = trace s @ [Log Info (js ''Logged in!'')]"
  "n_answers (snd (finish c s)) = n_answers s"
  "n_lookups (snd (finish c s)) = n_lookups s"
  by (simp_all add: finish_def)

lemma redirects_distinct: "js ''/?error=bad+code'' \<noteq> js ''/success.html''"
  by (simp add: js_def)

lemma counters_simps [simp]:
  "listens (emit e s) = listens s + (if is_Listen e then 1 else 0)"
  "closes (emit e s) = closes s + (if is_CloseAfter e then 1 else 0)"
  "writes (emit e s) = writes s + (if is_WriteFile e then 1 else 0)"
  "sign_ins (emit e s) = sign_ins s + (if is_SignIn e then 1 else 0)"
  "redirects_to url (emit e s) = redirects_to url s + (if is_Redirect_to url e then 1 else 0)"
  "redirects_to url (log l m s) = redirects_to url s"
  "listens (log l m s) = listens s"
  "closes (log l m s) = closes s"
  "writes (log l m s) = writes s"
  "sign_ins (log l m s) = sign_ins s"
  by (simp_all add: listens_def closes_def writes_def sign_ins_def redirects_to_def)

lemma counters_update [simp]:
  "listens (s\<lparr>n_answers := a\<rparr>) = listens s"
  "listens (s\<lparr>n_lookups := b\<rparr>) = listens s"
  "listens (s\<lparr>g_idToken := t\<rparr>) = listens s"
  "listens (s\<lparr>files := f\<rparr>) = listens s"
  "closes (s\<lparr>n_answers := a\<rparr>) = closes s"
  "closes (s\<lparr>n_lookups := b\<rparr>) = closes s"
  "closes (s\<lparr>g_idToken := t\<rparr>) = closes s"
  "closes (s\<lparr>files := f\<rparr>) = closes s"
  "writes (s\<lparr>n_answers := a\<rparr>) = writes s"
  "writes (s\<lparr>n_lookups := b\<rparr>) = writes s"
  "writes (s\<lparr>g_idToken := t\<rparr>) = writes s"
  "writes (s\<lparr>files := f\<rparr>) = writes s"
  "sign_ins (s\<lparr>n_answers := a\<rparr>) = sign_ins s"
  "sign_ins (s\<lparr>n_lookups := b\<rparr>) = sign_ins s"
  "sign_ins (s\<lparr>g_idToken := t\<rparr>) = sign_ins s"
  "sign_ins (s\<lparr>files := f\<rparr>) = sign_ins s"
  "redirects_to url (s\<lparr>n_answers := a\<rparr>) = redirects_to url s"
  "redirects_to url (s\<lparr>n_lookups := b\<rparr>) = redirects_to url s"
  "redirects_to url (s\<lparr>g_idToken := t\<rparr>) = redirects_to url s"
  "redirects_to url (s\<lparr>files := f\<rparr>) = redirects_to url s"
  by (simp_all add: listens_def closes_def writes_def sign_ins_def redirects_to_def)

lemma counters_prologue [simp]:
  "listens (prologue w s) = listens s"
  "closes (prologue w s) = closes s"
  "writes (prologue w s) = writes s"
  "sign_ins (prologue w s) = sign_ins s"
  "redirects_to url (prologue w s) = redirects_to url s"
  by (simp_all add: prologue_def)

lemma counters_finish [simp]:
  "listens (snd (finish c s)) = listens s"
  "closes (snd (finish c s)) = closes s"
  "writes (snd (finish c s)) = writes s"
  "sign_ins (snd (finish c s)) = sign_ins s"
  "redirects_to url (snd (finish c s)) = redirects_to url s"
  by (simp_all add: finish_def)

lemma challenge_state_simps [simp]:
  "files (challenge_state w config s) = files s"
  "g_idToken (challenge_state w config s) = g_idToken s"
  "n_answers (challenge_state w config s) = Suc (n_answers s)"
  "n_lookups (challenge_state w config s) = n_lookups s"
  "listens (challenge_state w config s) = Suc (listens s)"
  "closes (challenge_state w config s) = closes s"
  "writes (challenge_state w config s) = writes s"
  "sign_ins (challenge_state w config s) = Suc (sign_ins s)"
  "redirects_to url (challenge_state w config s) = redirects_to url s"
  by (simp_all add: challenge_state_def)

lemma initial_counters:
  "listens (initial_state fs) = 0" "closes (initial_state fs) = 0" "writes (initial_state fs) = 0"
  "sign_ins (initial_state fs) = 0" "redirects_to url (initial_state fs) = 0"
  "files (initial_state fs) = fs" "g_idToken (initial_state fs) = None"
  by (simp_all add: initial_state_def listens_def closes_def writes_def sign_ins_def redirects_to_def)

subsection \<open>The verify loop\<close>

lemma verify_loop_frame:
  "files (snd (verify_loop w user codes s)) = files s \<and>
   g_idToken (snd (verify_loop w user codes s)) = g_idToken s \<and>
   listens (snd (verify_loop w user codes s)) = listens s \<and>
   closes (snd (verify_loop w user codes s)) = closes s \<and>
   writes (snd (verify_loop w user codes s)) = writes s \<and>
   sign_ins (snd (verify_loop w user codes s)) = sign_ins s"
proof (induction codes arbitrary: s)
  case Nil
  show ?case by simp
next
  case (Cons code codes)
  show ?case
    by (simp add: Let_def Cons.IH split: option.splits sum.splits)
qed

lemma verify_loop_success_count:
  "redirects_to (js ''/success.html'') (snd (verify_loop w user codes s)) =
     redirects_to (js ''/success.html'') s +
     (case fst (verify_loop w user codes s) of CodeVerified c \<Rightarrow> 1 | NeverVerified \<Rightarrow> 0)"
proof (induction codes arbitrary: s)
  case Nil
  show ?case by simp
next
  case (Cons code codes)
  show ?case
    by (simp add: Let_def Cons.IH redirects_distinct split: option.splits sum.splits)
qed

lemma verify_loop_rejected:
  assumes "rejected w user bad (n_answers s) (n_lookups s)"
  shows "verify_loop w user (bad @ codes) s = verify_loop w user codes (snd (verify_loop w user bad s)) \<and>
         n_answers (snd (verify_loop w user bad s)) = n_answers s + length bad \<and>
         n_lookups (snd (verify_loop w user bad s)) = n_lookups s + length bad \<and>
         redirects_to (js ''/?error=bad+code'') (snd (verify_loop w user bad s)) =
           redirects_to (js ''/?error=bad+code'') s + length bad"
  using assms
proof (induction bad arbitrary: s)
  case Nil
  show ?case by simp
next
  case (Cons code bad)
  from Cons.prems obtain err where
    a: "Auth_sendCustomChallengeAnswer w (n_answers s) user (verify_answer code) = None" and
    l: "Auth_currentAuthenticatedUser w (n_lookups s) = Inl err" and
    r: "rejected w user bad (Suc (n_answers s)) (Suc (n_lookups s))"
    by (cases "Auth_currentAuthenticatedUser w (n_lookups s)") auto
  let ?s1 = "emit (Redirect (js ''/?error=bad+code''))
               (log Error (js ''Failed to verify mfa code: '' @ render_error err @ js '' - Try again.'')
                  ((emit (ChallengeAnswer (verify_answer code))
                      (log Info (js ''Input received: '' @ code @ js ''. Verifying...'') s))
                   \<lparr>n_answers := Suc (n_answers s), n_lookups := Suc (n_lookups s)\<rparr>))"
  have step: "verify_loop w user (code # xs) s = verify_loop w user xs ?s1" for xs
    using a l by (simp add: Let_def verify_answer_def)
  have "rejected w user bad (n_answers ?s1) (n_lookups ?s1)"
    using r by simp
  from Cons.IH [OF this] show ?case
    by (simp only: step append_Cons) simp
qed

lemma verify_loop_rejected_waits:
  "rejected w user bad (n_answers s) (n_lookups s) \<Longrightarrow> fst (verify_loop w user bad s) = NeverVerified"
  using verify_loop_rejected [of w user bad s "[]"]
  by (cases "verify_loop w user bad s") simp

lemma verify_loop_accepted:
  assumes "rejected w user bad (n_answers s) (n_lookups s)"
    and "Auth_sendCustomChallengeAnswer w (n_answers s + length bad) user (verify_answer code) = None"
    and "Auth_currentAuthenticatedUser w (n_lookups s + length bad) = Inr u"
  shows "fst (verify_loop w user (bad @ code # codes) s) = CodeVerified (getCredentialsFromSession u) \<and>
         n_lookups (snd (verify_loop w user (bad @ code # codes) s)) = Suc (n_lookups s + length bad) \<and>
         n_answers (snd (verify_loop w user (bad @ code # codes) s)) = Suc (n_answers s + length bad) \<and>
         redirects_to (js ''/?error=bad+code'') (snd (verify_loop w user (bad @ code # codes) s)) =
           redirects_to (js ''/?error=bad+code'') s + length bad"
proof -
  let ?s' = "snd (verify_loop w user bad s)"
  from verify_loop_rejected [OF assms(1)] have
    1: "verify_loop w user (bad @ code # codes) s = verify_loop w user (code # codes) ?s'" and
    2: "n_answers ?s' = n_answers s + length bad" and
    3: "n_lookups ?s' = n_lookups s + length bad" and
    4: "redirects_to (js ''/?error=bad+code'') ?s' = redirects_to (js ''/?error=bad+code'') s + length bad"
    by simp_all
  show ?thesis
    using assms(2,3) 2 3 4 redirects_distinct
    by (simp only: 1) (simp add: Let_def verify_answer_def)
qed

subsection \<open>The paths of \<open>kwiksetLogin\<close>\<close>

lemma kwiksetLogin_cases:
  "kwiksetLogin w config s =
     (case load_step (files s) (kwiksetSavePath_of w) of
        Inl e \<Rightarrow> (Threw e, log Debug (js ''Storage path: '' @ kwiksetSavePath_of w) s)
      | Inr savedCreds \<Rightarrow>
          (case cached_login w config savedCreds of
             Inl e \<Rightarrow> (Threw (External e), prologue w s)
           | Inr None \<Rightarrow> password_login w config (kwiksetSavePath_of w) (prologue w s)
           | Inr (Some credentials) \<Rightarrow> finish (Some credentials) (prologue w s)))"
  by (simp add: kwiksetLogin_def prologue_def Let_def split: sum.splits option.splits)

lemma kwiksetLogin_password:
  "cached_session_fails w config s \<Longrightarrow>
   kwiksetLogin w config s = password_login w config (kwiksetSavePath_of w) (prologue w s)"
  by (auto simp: kwiksetLogin_cases cached_session_fails_def split: sum.splits)

lemma password_login_failure:
  assumes "Auth_signIn w (email config) (password config) = Inl err"
  shows "password_login w config p s =
     (Returned,
      log Error (js ''Failed to log in: '' @ render_error err @
                 js '' - Make sure your username and password are correct.'')
        (emit (SignIn (email config) (password config))
           (log Warn (js ''Failed to login with cached tokens, reauthenticating...'') s)))"
  using assms by (simp add: password_login_def Let_def)

lemma password_login_unknown_challenge:
  assumes "Auth_signIn w (email config) (password config) = Inr user"
    and "challengeName user \<noteq> Some (js ''CUSTOM_CHALLENGE'')"
  shows "password_login w config p s =
     finish None
       (log Error (js ''Unknown auth challenge name '' @ render_opt (challengeName user))
          (emit (SignIn (email config) (password config))
             (log Warn (js ''Failed to login with cached tokens, reauthenticating...'') s)))"
  using assms by (simp add: password_login_def Let_def)

lemma kwiksetLogin_challenge:
  assumes "reaches_challenge w config s user"
  shows "kwiksetLogin w config s =
     (case verify_loop w user (submitted w) (challenge_state w config s) of
        (NeverVerified, s6) \<Rightarrow> (Pending, s6)
      | (CodeVerified credentials, s6) \<Rightarrow>
          (let s9 = (emit (CloseAfter 7000) (log Info (js ''Code verified!'') s6))
                      \<lparr>n_lookups := Suc (n_lookups s6)\<rparr>
           in case Auth_currentAuthenticatedUser w (n_lookups s6) of
                Inl e \<Rightarrow> (Threw (External e), s9)
              | Inr u \<Rightarrow>
                  (case save_step w (kwiksetSavePath_of w) (getCredentialsFromSession u) s9 of
                     Inl e \<Rightarrow> (Threw (External e), s9)
                   | Inr s10 \<Rightarrow> finish credentials (log Debug (js ''Credentials saved!'') s10))))"
  using assms
  by (simp add: reaches_challenge_def listener_starts_def kwiksetLogin_password password_login_def
      mfa_challenge_def challenge_state_def generate_answer_def Let_def
      split: prod.splits verify_result.splits sum.splits)

lemma mfa_pending:
  assumes "reaches_challenge w config s user"
    and "rejected w user (submitted w) (Suc (n_answers s)) (n_lookups s)"
  shows "fst (kwiksetLogin w config s) = Pending \<and>
         files (snd (kwiksetLogin w config s)) = files s \<and>
         g_idToken (snd (kwiksetLogin w config s)) = g_idToken s \<and>
         listens (snd (kwiksetLogin w config s)) = Suc (listens s) \<and>
         closes (snd (kwiksetLogin w config s)) = closes s \<and>
         writes (snd (kwiksetLogin w config s)) = writes s \<and>
         redirects_to (js ''/?error=bad+code'') (snd (kwiksetLogin w config s)) =
           redirects_to (js ''/?error=bad+code'') s + length (submitted w) \<and>
         redirects_to (js ''/success.html'') (snd (kwiksetLogin w config s)) =
           redirects_to (js ''/success.html'') s"
proof -
  let ?s5 = "challenge_state w config s"
  let ?r = "verify_loop w user (submitted w) ?s5"
  have rej: "rejected w user (submitted w) (n_answers ?s5) (n_lookups ?s5)"
    using assms(2) by simp
  have never: "fst ?r = NeverVerified"
    by (rule verify_loop_rejected_waits [OF rej])
  then have k: "kwiksetLogin w config s = (Pending, snd ?r)"
    by (cases ?r) (simp add: kwiksetLogin_challenge [OF assms(1)])
  show ?thesis
    using verify_loop_frame [of w user "submitted w" ?s5]
      verify_loop_rejected [OF rej, of "[]"]
      verify_loop_success_count [of w user "submitted w" ?s5] never
    by (simp add: k)
qed

lemma mfa_success:
  assumes "reaches_challenge w config s user"
    and "submitted w = bad @ code # rest"
    and "rejected w user bad (Suc (n_answers s)) (n_lookups s)"
    and "Auth_sendCustomChallengeAnswer w (Suc (n_answers s) + length bad) user (verify_answer code) = None"
    and "Auth_currentAuthenticatedUser w (n_lookups s + length bad) = Inr u1"
    and "Auth_currentAuthenticatedUser w (Suc (n_lookups s + length bad)) = Inr u2"
    and "write_failure w (kwiksetSavePath_of w) = None"
  shows "fst (kwiksetLogin w config s) = Returned \<and>
         g_idToken (snd (kwiksetLogin w config s)) = map_option idToken (getCredentialsFromSession u1) \<and>
         files (snd (kwiksetLogin w config s)) =
           (files s)(kwiksetSavePath_of w \<mapsto> Inr (JSON_stringify (getCredentialsFromSession u2))) \<and>
         listens (snd (kwiksetLogin w config s)) = Suc (listens s) \<and>
         closes (snd (kwiksetLogin w config s)) = Suc (closes s) \<and>
         writes (snd (kwiksetLogin w config s)) = Suc (writes s) \<and>
         redirects_to (js ''/?error=bad+code'') (snd (kwiksetLogin w config s)) =
           redirects_to (js ''/?error=bad+code'') s + length bad \<and>
         redirects_to (js ''/success.html'') (snd (kwiksetLogin w config s)) =
           Suc (redirects_to (js ''/success.html'') s)"
proof -
  let ?s5 = "challenge_state w config s"
  let ?r = "verify_loop w user (submitted w) ?s5"
  have rej: "rejected w user bad (n_answers ?s5) (n_lookups ?s5)"
    using assms(3) by simp
  have acc: "fst ?r = CodeVerified (getCredentialsFromSession u1) \<and>
             n_lookups (snd ?r) = Suc (n_lookups s + length bad) \<and>
             redirects_to (js ''/?error=bad+code'') (snd ?r) =
               redirects_to (js ''/?error=bad+code'') s + length bad"
    using verify_loop_accepted [OF rej, of code u1 rest] assms(2,4,5) by simp
  obtain s6 where r: "?r = (CodeVerified (getCredentialsFromSession u1), s6)"
    using acc by (cases ?r) simp
  have s6: "n_lookups s6 = Suc (n_lookups s + length bad)"
    "redirects_to (js ''/?error=bad+code'') s6 = redirects_to (js ''/?error=bad+code'') s + length bad"
    using acc r by simp_all
  have fr: "files s6 = files s" "g_idToken s6 = g_idToken s" "listens s6 = Suc (listens s)"
    "closes s6 = closes s" "writes s6 = writes s"
    using verify_loop_frame [of w user "submitted w" ?s5] r by simp_all
  have sc: "redirects_to (js ''/success.html'') s6 = Suc (redirects_to (js ''/success.html'') s)"
    using verify_loop_success_count [of w user "submitted w" ?s5] r by simp
  show ?thesis
    using assms(6,7) s6 fr sc
    by (simp add: kwiksetLogin_challenge [OF assms(1)] r Let_def save_step_def writeFileSync_def
        toWellFormed_stringify redirects_distinct)
qed

lemma mfa_challenge_writes:
  "files (snd (mfa_challenge w config p user s)) = files s \<and>
     writes (snd (mfa_challenge w config p user s)) = writes s \<or>
   fst (mfa_challenge w config p user s) = Returned \<and>
     redirects_to (js ''/success.html'') (snd (mfa_challenge w config p user s)) =
       Suc (redirects_to (js ''/success.html'') s) \<and>
     listens (snd (mfa_challenge w config p user s)) = Suc (listens s) \<and>
     closes (snd (mfa_challenge w config p user s)) = Suc (closes s)"
proof (cases "Auth_sendCustomChallengeAnswer w (n_answers s) user
                (js ''answerType:generateCode,medium:phone,codeType:login'')")
  case (Some e)
  then show ?thesis by (simp add: mfa_challenge_def Let_def)
next
  case None
  let ?s5 = "log Info
       (js ''MFA server listening on http://'' @ ip_address w @ js '':'' @
        show_nat (mfaPort config) @ js ''/index.html'')
       (emit (Listen (mfaPort config))
          (log Info (js ''Generated mfa code, waiting for input'')
             ((emit (ChallengeAnswer (js ''answerType:generateCode,medium:phone,codeType:login'')) s)
              \<lparr>n_answers := Suc (n_answers s)\<rparr>)))"
  obtain res s6 where r: "verify_loop w user (submitted w) ?s5 = (res, s6)"
    by (cases "verify_loop w user (submitted w) ?s5")
  have fr: "files s6 = files s" "listens s6 = Suc (listens s)" "closes s6 = closes s"
    "writes s6 = writes s"
    using verify_loop_frame [of w user "submitted w" ?s5] r by simp_all
  have sc: "redirects_to (js ''/success.html'') s6 =
      redirects_to (js ''/success.html'') s + (case res of CodeVerified c \<Rightarrow> 1 | NeverVerified \<Rightarrow> 0)"
    using verify_loop_success_count [of w user "submitted w" ?s5] r by simp
  show ?thesis
    using None r fr sc
    by (cases res)
      (auto simp: mfa_challenge_def Let_def save_step_def writeFileSync_def
        split: sum.splits option.splits)
qed

lemma password_login_writes:
  "files (snd (password_login w config p s)) = files s \<and>
     writes (snd (password_login w config p s)) = writes s \<or>
   fst (password_login w config p s) = Returned \<and>
     redirects_to (js ''/success.html'') (snd (password_login w config p s)) =
       Suc (redirects_to (js ''/success.html'') s) \<and>
     listens (snd (password_login w config p s)) = Suc (listens s) \<and>
     closes (snd (password_login w config p s)) = Suc (closes s)"
proof (cases "Auth_signIn w (email config) (password config)")
  case (Inl err)
  then show ?thesis by (simp add: password_login_def Let_def)
next
  case (Inr user)
  let ?s2 = "emit (SignIn (email config) (password config))
               (log Warn (js ''Failed to login with cached tokens, reauthenticating...'') s)"
  show ?thesis
  proof (cases "challengeName user = Some (js ''CUSTOM_CHALLENGE'')")
    case True
    then have "password_login w config p s = mfa_challenge w config p user ?s2"
      using Inr by (simp add: password_login_def Let_def)
    then show ?thesis
      using mfa_challenge_writes [of w config p user ?s2] by simp
  next
    case False
    then show ?thesis using Inr by (simp add: password_login_def Let_def)
  qed
qed

lemma kwiksetLogin_writes:
  "files (snd (kwiksetLogin w config s)) = files s \<and>
     writes (snd (kwiksetLogin w config s)) = writes s \<or>
   fst (kwiksetLogin w config s) = Returned \<and>
     redirects_to (js ''/success.html'') (snd (kwiksetLogin w config s)) =
       Suc (redirects_to (js ''/success.html'') s) \<and>
     listens (snd (kwiksetLogin w config s)) = Suc (listens s) \<and>
     closes (snd (kwiksetLogin w config s)) = Suc (closes s)"
  using password_login_writes [of w config "kwiksetSavePath_of w" "prologue w s"]
  by (simp add: kwiksetLogin_cases split: sum.splits option.splits)

subsection \<open>The posted codes are the only part of the world that the loop reads\<close>

lemma cached_login_submitted [simp]:
  "cached_login (w\<lparr>submitted := xs\<rparr>) config savedCreds = cached_login w config savedCreds"
  by (simp add: cached_login_def logInWithStoredCreds_def split: option.splits)

lemma submitted_update [simp]:
  "kwiksetSavePath_of (w\<lparr>submitted := xs\<rparr>) = kwiksetSavePath_of w"
  "cached_session_fails (w\<lparr>submitted := xs\<rparr>) config s = cached_session_fails w config s"
  "reaches_challenge (w\<lparr>submitted := xs\<rparr>) config s user = reaches_challenge w config s user"
  by (simp_all add: kwiksetSavePath_of_def cached_session_fails_def reaches_challenge_def
      listener_starts_def split: sum.splits)

lemma rejected_submitted_update [simp]:
  "rejected (w\<lparr>submitted := xs\<rparr>) user bad ka kl = rejected w user bad ka kl"
  by (induction bad arbitrary: ka kl) simp_all

subsection \<open>The example inputs\<close>

lemma cached_world_run:
  "fst (kwiksetLogin cached_world demo_config
          (initial_state (stored_files cached_world (Some demo_creds)))) = Returned \<and>
   g_idToken (snd (kwiksetLogin cached_world demo_config
          (initial_state (stored_files cached_world (Some demo_creds))))) = Some (js ''id-1'')"
  by (simp add: kwiksetLogin_cases initial_state_def load_stored_files cached_login_def
      json_of_def logInWithStoredCreds_def cached_world_def demo_world_def session_user_def
      getCredentialsFromSession_def demo_session_def key_distinct [symmetric])

lemma demo_world_reaches_challenge:
  "reaches_challenge demo_world demo_config (initial_state Map.empty) challenge_user"
  by (simp add: reaches_challenge_def listener_starts_def cached_session_fails_def load_step_def
      existsSync_def initial_state_def cached_login_def demo_world_def session_user_def
      challenge_user_def demo_config_def)

lemma demo_world_rejected:
  "rejected demo_world challenge_user [js ''111111'', js ''222222'']
     (Suc (n_answers (initial_state Map.empty))) (n_lookups (initial_state Map.empty))"
  by (simp add: demo_world_def session_user_def initial_state_def)

lemma demo_world_accepted:
  "Auth_sendCustomChallengeAnswer demo_world
     (Suc (n_answers (initial_state Map.empty)) + length [js ''111111'', js ''222222''])
     challenge_user (verify_answer (js ''333333'')) = None"
  "Auth_currentAuthenticatedUser demo_world
     (n_lookups (initial_state Map.empty) + length [js ''111111'', js ''222222'']) = Inr session_user"
  "Auth_currentAuthenticatedUser demo_world
     (Suc (n_lookups (initial_state Map.empty) + length [js ''111111'', js ''222222''])) = Inr session_user"
  "getSession session_user = Inr demo_session"
  "write_failure demo_world (kwiksetSavePath_of demo_world) = None"
  by (simp_all add: demo_world_def initial_state_def session_user_def)

lemma demo_world_writes:
  "files (snd (kwiksetLogin demo_world demo_config (initial_state Map.empty))) \<noteq>
     files (initial_state Map.empty)"
proof -
  have s: "submitted demo_world = [js ''111111'', js ''222222''] @ js ''333333'' # []"
    by (simp add: demo_world_def session_user_def)
  from mfa_success [OF demo_world_reaches_challenge s demo_world_rejected demo_world_accepted(1)
      demo_world_accepted(2) demo_world_accepted(3) demo_world_accepted(5)]
  have "files (snd (kwiksetLogin demo_world demo_config (initial_state Map.empty)))
      (kwiksetSavePath_of demo_world) \<noteq> None"
    by simp
  then show ?thesis
    by (auto simp: initial_state_def)
qed

subsection \<open>Rejected lookups are retried\<close>

text \<open>
  Let a login reach the verify loop, and let each of the codes \<open>bad\<close>, however many,
  be rejected the way lines 156 to 163 provide for: the answer is sent and the lookup of
  the authenticated user throws. If these are all the codes posted, \<open>kwiksetLogin\<close>
  has not settled, the listener was started and no timer to close it was set, every code
  was answered with the redirect back to the form, and nothing was written. If then a
  code is posted that the provider accepts (the lookups of the authenticated user, in
  the loop and after it, give users with sessions) and the file can be written,
  \<open>kwiksetLogin\<close> returns with the module's \<open>idToken\<close> set from the session fetched
  in the loop, the timer to close the listener set, and a credential record in the token
  file.
\<close>

lemma rejected_lookups_retry_until_accepted:
  assumes "reaches_challenge w config s user"
    and "rejected w user bad (Suc (n_answers s)) (n_lookups s)"
    and "Auth_sendCustomChallengeAnswer w (Suc (n_answers s) + length bad) user (verify_answer code) = None"
    and "Auth_currentAuthenticatedUser w (n_lookups s + length bad) = Inr u1"
    and "getSession u1 = Inr session1"
    and "Auth_currentAuthenticatedUser w (Suc (n_lookups s + length bad)) = Inr u2"
    and "getSession u2 = Inr session2"
    and "write_failure w (kwiksetSavePath_of w) = None"
  shows "fst (kwiksetLogin (w\<lparr>submitted := bad\<rparr>) config s) = Pending \<and>
         listens (snd (kwiksetLogin (w\<lparr>submitted := bad\<rparr>) config s)) = Suc (listens s) \<and>
         closes (snd (kwiksetLogin (w\<lparr>submitted := bad\<rparr>) config s)) = closes s \<and>
         redirects_to (js ''/?error=bad+code'') (snd (kwiksetLogin (w\<lparr>submitted := bad\<rparr>) config s)) =
           redirects_to (js ''/?error=bad+code'') s + length bad \<and>
         files (snd (kwiksetLogin (w\<lparr>submitted := bad\<rparr>) config s)) = files s \<and>
         fst (kwiksetLogin (w\<lparr>submitted := bad @ code # rest\<rparr>) config s) = Returned \<and>
         g_idToken (snd (kwiksetLogin (w\<lparr>submitted := bad @ code # rest\<rparr>) config s)) =
           Some (idToken_jwtToken session1) \<and>
         closes (snd (kwiksetLogin (w\<lparr>submitted := bad @ code # rest\<rparr>) config s)) = Suc (closes s) \<and>
         redirects_to (js ''/success.html'')
           (snd (kwiksetLogin (w\<lparr>submitted := bad @ code # rest\<rparr>) config s)) =
           Suc (redirects_to (js ''/success.html'') s) \<and>
         load_step (files (snd (kwiksetLogin (w\<lparr>submitted := bad @ code # rest\<rparr>) config s)))
           (kwiksetSavePath_of w) = Inr (Some (json_of (credentials_of session2)))"
proof -
  let ?w1 = "w\<lparr>submitted := bad\<rparr>"
  let ?w2 = "w\<lparr>submitted := bad @ code # rest\<rparr>"
  have p: "reaches_challenge ?w1 config s user" "rejected ?w1 user (submitted ?w1) (Suc (n_answers s)) (n_lookups s)"
    using assms(1,2) by simp_all
  have q: "reaches_challenge ?w2 config s user" "submitted ?w2 = bad @ code # rest"
    "rejected ?w2 user bad (Suc (n_answers s)) (n_lookups s)"
    "Auth_sendCustomChallengeAnswer ?w2 (Suc (n_answers s) + length bad) user (verify_answer code) = None"
    "Auth_currentAuthenticatedUser ?w2 (n_lookups s + length bad) = Inr u1"
    "Auth_currentAuthenticatedUser ?w2 (Suc (n_lookups s + length bad)) = Inr u2"
    "write_failure ?w2 (kwiksetSavePath_of ?w2) = None"
    using assms by simp_all
  have l: "load_step ((files s)(kwiksetSavePath_of w \<mapsto> Inr (JSON_stringify (Some (credentials_of session2)))))
             (kwiksetSavePath_of w) = Inr (Some (json_of (credentials_of session2)))"
    using load_after_write [of "files s" "kwiksetSavePath_of w" "Some (credentials_of session2)"]
    by (simp add: toWellFormed_stringify json_of_def)
  show ?thesis
    using mfa_pending [OF p] mfa_success [OF q] l
    by (simp add: getCredentialsFromSession_Inr [OF assms(5)] getCredentialsFromSession_Inr [OF assms(7)]
        credentials_of_def)
qed

lemma rejected_lookups_retry_example:
  "reaches_challenge demo_world demo_config (initial_state Map.empty) challenge_user \<and>
   rejected demo_world challenge_user [js ''111111'', js ''222222''] 1 0 \<and>
   Auth_sendCustomChallengeAnswer demo_world 3 challenge_user (verify_answer (js ''333333'')) = None \<and>
   Auth_currentAuthenticatedUser demo_world 2 = Inr session_user \<and>
   Auth_currentAuthenticatedUser demo_world 3 = Inr session_user \<and>
   getSession session_user = Inr demo_session \<and>
   write_failure demo_world (kwiksetSavePath_of demo_world) = None \<and>
   fst (kwiksetLogin (demo_world\<lparr>submitted := [js ''111111'', js ''222222'']\<rparr>) demo_config
          (initial_state Map.empty)) = Pending \<and>
   listens (snd (kwiksetLogin (demo_world\<lparr>submitted := [js ''111111'', js ''222222'']\<rparr>) demo_config
          (initial_state Map.empty))) = 1 \<and>
   closes (snd (kwiksetLogin (demo_world\<lparr>submitted := [js ''111111'', js ''222222'']\<rparr>) demo_config
          (initial_state Map.empty))) = 0 \<and>
   redirects_to (js ''/?error=bad+code'')
     (snd (kwiksetLogin (demo_world\<lparr>submitted := [js ''111111'', js ''222222'']\<rparr>) demo_config
          (initial_state Map.empty))) = 2 \<and>
   fst (kwiksetLogin (demo_world\<lparr>submitted := [js ''111111'', js ''222222'', js ''333333'']\<rparr>)
          demo_config (initial_state Map.empty)) = Returned \<and>
   g_idToken (snd (kwiksetLogin (demo_world\<lparr>submitted := [js ''111111'', js ''222222'', js ''333333'']\<rparr>)
          demo_config (initial_state Map.empty))) = Some (js ''id-1'') \<and>
   closes (snd (kwiksetLogin (demo_world\<lparr>submitted := [js ''111111'', js ''222222'', js ''333333'']\<rparr>)
          demo_config (initial_state Map.empty))) = 1 \<and>
   load_step
     (files (snd (kwiksetLogin (demo_world\<lparr>submitted := [js ''111111'', js ''222222'', js ''333333'']\<rparr>)
          demo_config (initial_state Map.empty))))
     (kwiksetSavePath_of demo_world) = Inr (Some (json_of demo_creds))"
proof -
  have c: "credentials_of demo_session = demo_creds"
    by (simp add: credentials_of_def demo_session_def demo_creds_def)
  have i: "idToken_jwtToken demo_session = js ''id-1''"
    by (simp add: demo_session_def)
  have r: "rejected demo_world challenge_user [js ''111111'', js ''222222''] 1 0"
    using demo_world_rejected by (simp add: initial_state_def)
  have a: "Auth_sendCustomChallengeAnswer demo_world 3 challenge_user (verify_answer (js ''333333'')) = None"
    "Auth_currentAuthenticatedUser demo_world 2 = Inr session_user"
    "Auth_currentAuthenticatedUser demo_world 3 = Inr session_user"
    by (simp_all add: demo_world_def)
  from rejected_lookups_retry_until_accepted
    [OF demo_world_reaches_challenge demo_world_rejected demo_world_accepted(1)
      demo_world_accepted(2) demo_world_accepted(4) demo_world_accepted(3) demo_world_accepted(4)
      demo_world_accepted(5), of "[]"]
  have "fst (kwiksetLogin (demo_world\<lparr>submitted := [js ''111111'', js ''222222'']\<rparr>) demo_config
          (initial_state Map.empty)) = Pending \<and>
   listens (snd (kwiksetLogin (demo_world\<lparr>submitted := [js ''111111'', js ''222222'']\<rparr>) demo_config
          (initial_state Map.empty))) = 1 \<and>
   closes (snd (kwiksetLogin (demo_world\<lparr>submitted := [js ''111111'', js ''222222'']\<rparr>) demo_config
          (initial_state Map.empty))) = 0 \<and>
   redirects_to (js ''/?error=bad+code'')
     (snd (kwiksetLogin (demo_world\<lparr>submitted := [js ''111111'', js ''222222'']\<rparr>) demo_config
          (initial_state Map.empty))) = 2 \<and>
   fst (kwiksetLogin (demo_world\<lparr>submitted := [js ''111111'', js ''222222'', js ''333333'']\<rparr>)
          demo_config (initial_state Map.empty)) = Returned \<and>
   g_idToken (snd (kwiksetLogin (demo_world\<lparr>submitted := [js ''111111'', js ''222222'', js ''333333'']\<rparr>)
          demo_config (initial_state Map.empty))) = Some (js ''id-1'') \<and>
   closes (snd (kwiksetLogin (demo_world\<lparr>submitted := [js ''111111'', js ''222222'', js ''333333'']\<rparr>)
          demo_config (initial_state Map.empty))) = 1 \<and>
   load_step
     (files (snd (kwiksetLogin (demo_world\<lparr>submitted := [js ''111111'', js ''222222'', js ''333333'']\<rparr>)
          demo_config (initial_state Map.empty))))
     (kwiksetSavePath_of demo_world) = Inr (Some (json_of demo_creds))"
    by (simp add: initial_counters c i)
  with demo_world_reaches_challenge r a demo_world_accepted(4) demo_world_accepted(5)
  show ?thesis
    by simp
qed

subsection \<open>Runs that throw or never settle\<close>

text \<open>
  A token file that is not JSON makes \<open>kwiksetLogin\<close> throw the \<open>SyntaxError\<close> of
  \<open>JSON.parse\<close> after its first log line, before anything else happens.
\<close>

lemma malformed_token_file_throws:
  assumes "files s (kwiksetSavePath_of w) = Some (Inr text)"
    and "JSON_parse text = Inl SyntaxError"
  shows "kwiksetLogin w config s =
           (Threw SyntaxError, log Debug (js ''Storage path: '' @ kwiksetSavePath_of w) s)"
  using assms
  by (simp add: kwiksetLogin_cases load_step_def existsSync_def readFileSync_def)

lemma malformed_token_file_example:
  "kwiksetLogin demo_world demo_config
     (initial_state [kwiksetSavePath_of demo_world \<mapsto> Inr (js ''{idToken: 1}'')]) =
     (Threw SyntaxError,
      log Debug (js ''Storage path: '' @ kwiksetSavePath_of demo_world)
        (initial_state [kwiksetSavePath_of demo_world \<mapsto> Inr (js ''{idToken: 1}'')]))"
proof -
  have "JSON_parse (js ''{idToken: 1}'') = Inl SyntaxError"
    by (simp add: JSON_parse_def js_def lex.simps(2) is_ws_def is_digit_def)
  then show ?thesis
    by (intro malformed_token_file_throws) (simp_all add: initial_state_def)
qed

text \<open>
  The answer to a posted code is sent outside the \<^verbatim>\<open>try\<close> (line 152). If that call
  throws, the turn is never resolved: \<open>kwiksetLogin\<close> does not settle, the poster gets no
  redirect, no timer is set, and the codes posted later are not looked at.
\<close>

lemma verify_loop_answer_throws:
  assumes "rejected w user bad (n_answers s) (n_lookups s)"
    and "Auth_sendCustomChallengeAnswer w (n_answers s + length bad) user (verify_answer code) = Some e"
  shows "fst (verify_loop w user (bad @ code # rest) s) = NeverVerified \<and>
         redirects_to url (snd (verify_loop w user (bad @ code # rest) s)) =
           redirects_to url (snd (verify_loop w user bad s)) \<and>
         last (trace (snd (verify_loop w user (bad @ code # rest) s))) = UnhandledRejection e"
proof -
  let ?s' = "snd (verify_loop w user bad s)"
  from verify_loop_rejected [OF assms(1)] have
    1: "verify_loop w user (bad @ code # rest) s = verify_loop w user (code # rest) ?s'" and
    2: "n_answers ?s' = n_answers s + length bad"
    by simp_all
  show ?thesis
    using assms(2) 2 by (simp only: 1) (simp add: Let_def verify_answer_def)
qed

lemma answer_error_in_loop_never_settles:
  assumes "reaches_challenge w config s user"
    and "submitted w = bad @ code # rest"
    and "rejected w user bad (Suc (n_answers s)) (n_lookups s)"
    and "Auth_sendCustomChallengeAnswer w (Suc (n_answers s) + length bad) user (verify_answer code) = Some e"
  shows "fst (kwiksetLogin w config s) = Pending \<and>
         last (trace (snd (kwiksetLogin w config s))) = UnhandledRejection e \<and>
         closes (snd (kwiksetLogin w config s)) = closes s \<and>
         redirects_to (js ''/success.html'') (snd (kwiksetLogin w config s)) =
           redirects_to (js ''/success.html'') s \<and>
         redirects_to (js ''/?error=bad+code'') (snd (kwiksetLogin w config s)) =
           redirects_to (js ''/?error=bad+code'') s + length bad"
proof -
  let ?s5 = "challenge_state w config s"
  let ?r = "verify_loop w user (submitted w) ?s5"
  have rej: "rejected w user bad (n_answers ?s5) (n_lookups ?s5)"
    using assms(3) by simp
  have a: "Auth_sendCustomChallengeAnswer w (n_answers ?s5 + length bad) user (verify_answer code) = Some e"
    using assms(4) by simp
  note t = verify_loop_answer_throws [OF rej a, of rest]
  have never: "fst ?r = NeverVerified"
    using t [of "[]"] assms(2) by simp
  then have k: "kwiksetLogin w config s = (Pending, snd ?r)"
    by (cases ?r) (simp add: kwiksetLogin_challenge [OF assms(1)])
  show ?thesis
    using verify_loop_frame [of w user "submitted w" ?s5] t [of "js ''/success.html''"]
      t [of "js ''/?error=bad+code''"] verify_loop_rejected [OF rej, of "[]"]
      verify_loop_success_count [of w user bad ?s5] verify_loop_rejected_waits [OF rej]
      assms(2)
    by (simp add: k)
qed

text \<open>
  A port above 65535 makes \<open>app.listen\<close> throw (line 143), and with it
  \<open>kwiksetLogin\<close>; a port that the operating system refuses ends the run with an
  error that nothing catches. In both cases the address is not logged and no posted code
  is looked at.
\<close>

lemma listen_bad_port_throws:
  assumes "cached_session_fails w config s"
    and "Auth_signIn w (email config) (password config) = Inr user"
    and "challengeName user = Some (js ''CUSTOM_CHALLENGE'')"
    and "Auth_sendCustomChallengeAnswer w (n_answers s) user generate_answer = None"
    and "65535 < mfaPort config"
  shows "fst (kwiksetLogin w config s) = Threw (BadPort (mfaPort config)) \<and>
         last (trace (snd (kwiksetLogin w config s))) = Listen (mfaPort config) \<and>
         n_answers (snd (kwiksetLogin w config s)) = Suc (n_answers s)"
  using assms
  by (simp add: kwiksetLogin_password password_login_def mfa_challenge_def generate_answer_def Let_def)

lemma listen_refused_is_uncaught:
  assumes "cached_session_fails w config s"
    and "Auth_signIn w (email config) (password config) = Inr user"
    and "challengeName user = Some (js ''CUSTOM_CHALLENGE'')"
    and "Auth_sendCustomChallengeAnswer w (n_answers s) user generate_answer = None"
    and "mfaPort config \<le> 65535"
    and "listen_error w (mfaPort config) = Some e"
  shows "fst (kwiksetLogin w config s) = Uncaught e \<and>
         last (trace (snd (kwiksetLogin w config s))) = Listen (mfaPort config) \<and>
         n_answers (snd (kwiksetLogin w config s)) = Suc (n_answers s)"
  using assms
  by (simp add: kwiksetLogin_password password_login_def mfa_challenge_def generate_answer_def Let_def)

lemma listen_bad_port_example:
  "fst (kwiksetLogin demo_world (demo_config\<lparr>mfaPort := 65536\<rparr>) (initial_state Map.empty)) =
     Threw (BadPort 65536)"
  using listen_bad_port_throws
    [of demo_world "demo_config\<lparr>mfaPort := 65536\<rparr>" "initial_state Map.empty" challenge_user]
  by (simp add: cached_session_fails_def load_step_def existsSync_def initial_state_def
      cached_login_def demo_world_def session_user_def challenge_user_def demo_config_def)

section \<open>The claims\<close>

text \<open>
  C1. When a stored credential record exists (the load step gives a truthy value) and
  \<open>logInWithStoredCreds\<close> returns a record, \<open>kwiksetLogin\<close> returns with the module's
  \<open>idToken\<close> set to that record's \<open>idToken\<close>; the run logs five messages and
  configures the SDK, and nothing else: \<open>app.listen\<close> is not called.
\<close>

theorem cached_session_authenticates_without_listener:
  assumes "load_step (files s) (kwiksetSavePath_of w) = Inr (Some v)"
    and "truthy v"
    and "logInWithStoredCreds w config (get_prop v (js ''idToken''))
           (get_prop v (js ''accessToken'')) (get_prop v (js ''refreshToken'')) = Inr (Some r)"
  shows "fst (kwiksetLogin w config s) = Returned \<and>
         g_idToken (snd (kwiksetLogin w config s)) = Some (idToken r) \<and>
         trace (snd (kwiksetLogin w config s)) =
           trace s @
           [Log Debug (js ''Storage path: '' @ kwiksetSavePath_of w),
            Log Debug (js ''Running login...''),
            AmplifyConfigure (COGNITO_AWS_REGION (consts_of w)) (COGNITO_USER_POOL_ID (consts_of w))
              (COGNITO_USER_POOL_CLIENT (consts_of w)) (js ''CUSTOM_AUTH''),
            Log Debug (js ''Logging in via cached tokens''),
            Log Info (js ''Logged in!'')] \<and>
         listens (snd (kwiksetLogin w config s)) = listens s"
  using assms by (simp add: kwiksetLogin_cases cached_login_def listens_def)

theorem cached_session_authenticates_without_listener_witness:
  "load_step (files (initial_state (stored_files cached_world (Some demo_creds))))
     (kwiksetSavePath_of cached_world) = Inr (Some (json_of demo_creds)) \<and>
   truthy (json_of demo_creds) \<and>
   logInWithStoredCreds cached_world demo_config (get_prop (json_of demo_creds) (js ''idToken''))
     (get_prop (json_of demo_creds) (js ''accessToken''))
     (get_prop (json_of demo_creds) (js ''refreshToken'')) = Inr (Some demo_creds) \<and>
   fst (kwiksetLogin cached_world demo_config
          (initial_state (stored_files cached_world (Some demo_creds)))) = Returned \<and>
   g_idToken (snd (kwiksetLogin cached_world demo_config
          (initial_state (stored_files cached_world (Some demo_creds))))) = Some (js ''id-1'') \<and>
   listens (snd (kwiksetLogin cached_world demo_config
          (initial_state (stored_files cached_world (Some demo_creds))))) = 0"
proof -
  let ?s = "initial_state (stored_files cached_world (Some demo_creds))"
  have 1: "load_step (files ?s) (kwiksetSavePath_of cached_world) = Inr (Some (json_of demo_creds))"
    by (simp add: initial_state_def load_stored_files)
  have 2: "truthy (json_of demo_creds)"
    by (simp add: json_of_def)
  have 3: "logInWithStoredCreds cached_world demo_config (get_prop (json_of demo_creds) (js ''idToken''))
     (get_prop (json_of demo_creds) (js ''accessToken''))
     (get_prop (json_of demo_creds) (js ''refreshToken'')) = Inr (Some demo_creds)"
    by (simp add: logInWithStoredCreds_def cached_world_def demo_world_def session_user_def
        getCredentialsFromSession_def demo_session_def demo_creds_def)
  have 4: "listens ?s = 0"
    by (simp add: listens_def initial_state_def)
  from cached_session_authenticates_without_listener [OF 1 2 3] 1 2 3 4 show ?thesis
    by (simp add: demo_creds_def)
qed

text \<open>
  C2. In a state whose \<open>idToken\<close> holds the token \<open>t\<close> captured by a login,
  \<open>apiRequest(log, {path: "lock/status", method: "GET"})\<close> hands \<open>fetch\<close> a request
  for the URL \<open>https://\<close> + \<open>API_HOST\<close> + \<open>/lock/status\<close> with method \<open>GET\<close>,
  whose \<open>Authorization\<close> header is \<open>Bearer \<close> followed by \<open>t\<close>, and returns what
  \<open>fetch\<close> returns.
\<close>

theorem apiRequest_carries_bearer_token:
  assumes "g_idToken s = Some t"
  shows "apiRequest K fetch s (lock_status :: 'b opts) =
           fetch \<lparr>req_url = js ''https://'' @ API_HOST K @ js ''/lock/status'',
                  req_method = js ''GET'',
                  req_headers =
                    [(js ''Host'', API_HOST K),
                     (js ''User-Agent'', API_USER_AGENT K),
                     (js ''Accept-Encoding'', js ''gzip''),
                     (js ''Authorization'', js ''Bearer '' @ t)],
                  req_body = None\<rparr> \<and>
         map_of (req_headers (apiRequest_request K s (lock_status :: 'b opts))) (js ''Authorization'') =
           Some (js ''Bearer '' @ t)"
  using assms
  by (simp add: apiRequest_def apiRequest_request_def lock_status_def js_def)

theorem apiRequest_carries_bearer_token_witness:
  "g_idToken (snd (kwiksetLogin cached_world demo_config
      (initial_state (stored_files cached_world (Some demo_creds))))) = Some (js ''id-1'') \<and>
   apiRequest demo_constants id
     (snd (kwiksetLogin cached_world demo_config
        (initial_state (stored_files cached_world (Some demo_creds))))) (lock_status :: unit opts) =
     \<lparr>req_url = js ''https://api.example.com/lock/status'',
      req_method = js ''GET'',
      req_headers =
        [(js ''Host'', js ''api.example.com''),
         (js ''User-Agent'', js ''agent''),
         (js ''Accept-Encoding'', js ''gzip''),
         (js ''Authorization'', js ''Bearer id-1'')],
      req_body = None\<rparr>"
proof -
  have h: "g_idToken (snd (kwiksetLogin cached_world demo_config
      (initial_state (stored_files cached_world (Some demo_creds))))) = Some (js ''id-1'')"
    using cached_world_run by simp
  from apiRequest_carries_bearer_token [OF h, of demo_constants "id :: unit request \<Rightarrow> unit request"] h
  show ?thesis
    by (simp add: demo_constants_def js_append [symmetric])
qed

text \<open>
  C3. A code that the provider rejects should leave the flow in the challenge, waiting
  for another code with the listener open, however often that happens, and a code
  accepted later should still complete the login and store a record. The source does
  this for a code whose rejection shows in the lookup of the authenticated user (lemma
  \<open>rejected_lookups_retry_until_accepted\<close>). It does not for a code that the
  provider rejects by failing \<open>Auth.sendCustomChallengeAnswer\<close>: that call (line
  152) stands outside the \<^verbatim>\<open>try\<close> of lines 156 to 163. In the run below the
  code \<open>000000\<close> is rejected in this way and the code \<open>123456\<close>, which the
  provider accepts, is posted after it. The loop is entered, the first code is logged
  and sent, and the error is an unhandled rejection; that is the end of the trace. The
  poster gets no redirect, the loop takes no second turn, the second code is not sent to
  the provider, \<open>kwiksetLogin\<close> does not settle, the module's \<open>idToken\<close> stays
  undefined and no file is written. Posted alone, the code \<open>123456\<close> completes the
  login.
\<close>

theorem thrown_rejection_ends_the_retry_loop:
  "fst (kwiksetLogin throwing_world demo_config (initial_state Map.empty)) = Pending \<and>
   trace (snd (kwiksetLogin throwing_world demo_config (initial_state Map.empty))) =
     trace (challenge_state throwing_world demo_config (initial_state Map.empty)) @
     [Log Info (js ''Input received: 000000. Verifying...''),
      ChallengeAnswer (js ''answerType:verifyCode,medium:phone,codeType:login,code:000000''),
      UnhandledRejection (Err (js ''NotAuthorizedException: Incorrect username or password.''))] \<and>
   redirects_to (js ''/?error=bad+code'')
     (snd (kwiksetLogin throwing_world demo_config (initial_state Map.empty))) = 0 \<and>
   redirects_to (js ''/success.html'')
     (snd (kwiksetLogin throwing_world demo_config (initial_state Map.empty))) = 0 \<and>
   n_answers (snd (kwiksetLogin throwing_world demo_config (initial_state Map.empty))) = 2 \<and>
   n_lookups (snd (kwiksetLogin throwing_world demo_config (initial_state Map.empty))) = 0 \<and>
   g_idToken (snd (kwiksetLogin throwing_world demo_config (initial_state Map.empty))) = None \<and>
   files (snd (kwiksetLogin throwing_world demo_config (initial_state Map.empty))) = Map.empty \<and>
   fst (kwiksetLogin (throwing_world\<lparr>submitted := [js ''123456'']\<rparr>) demo_config
          (initial_state Map.empty)) = Returned \<and>
   g_idToken (snd (kwiksetLogin (throwing_world\<lparr>submitted := [js ''123456'']\<rparr>) demo_config
          (initial_state Map.empty))) = Some (js ''id-1'')"
proof -
  let ?s = "initial_state Map.empty"
  let ?e = "Err (js ''NotAuthorizedException: Incorrect username or password.'')"
  have d: "generate_answer \<noteq> js ''answerType:verifyCode,medium:phone,codeType:login,code:000000''"
    "js ''answerType:verifyCode,medium:phone,codeType:login,code:123456'' \<noteq>
     js ''answerType:verifyCode,medium:phone,codeType:login,code:000000''"
    by (simp_all add: generate_answer_def js_def)
  have c: "cached_session_fails w cfg ?s" for w cfg
    by (simp add: cached_session_fails_def load_step_def existsSync_def initial_state_def
        cached_login_def)
  have r: "reaches_challenge throwing_world demo_config ?s challenge_user"
    "reaches_challenge (throwing_world\<lparr>submitted := [js ''123456'']\<rparr>) demo_config ?s challenge_user"
    using d(1)
    by (simp_all add: reaches_challenge_def listener_starts_def c throwing_world_def demo_world_def
        challenge_user_def demo_config_def)
  have v: "verify_loop throwing_world challenge_user (submitted throwing_world)
             (challenge_state throwing_world demo_config ?s) =
           (NeverVerified,
            emit (UnhandledRejection ?e)
              ((emit (ChallengeAnswer (js ''answerType:verifyCode,medium:phone,codeType:login,code:000000''))
                  (log Info (js ''Input received: 000000. Verifying...'')
                     (challenge_state throwing_world demo_config ?s)))
               \<lparr>n_answers := 2\<rparr>))"
    by (simp add: throwing_world_def demo_world_def Let_def initial_state_def js_append [symmetric])
  have k: "kwiksetLogin throwing_world demo_config ?s =
           (Pending,
            emit (UnhandledRejection ?e)
              ((emit (ChallengeAnswer (js ''answerType:verifyCode,medium:phone,codeType:login,code:000000''))
                  (log Info (js ''Input received: 000000. Verifying...'')
                     (challenge_state throwing_world demo_config ?s)))
               \<lparr>n_answers := 2\<rparr>))"
    by (simp add: kwiksetLogin_challenge [OF r(1)] v)
  have a: "fst (kwiksetLogin (throwing_world\<lparr>submitted := [js ''123456'']\<rparr>) demo_config ?s) = Returned \<and>
           g_idToken (snd (kwiksetLogin (throwing_world\<lparr>submitted := [js ''123456'']\<rparr>) demo_config ?s)) =
             Some (js ''id-1'')"
    using mfa_success [OF r(2), of "[]" "js ''123456''" "[]" session_user session_user] d(2)
    by (simp add: throwing_world_def demo_world_def initial_state_def verify_answer_def
        js_append [symmetric] getCredentialsFromSession_def session_user_def demo_session_def)
  have i: "n_lookups ?s = 0" "n_answers ?s = 0"
    by (simp_all add: initial_state_def)
  show ?thesis
    by (simp add: k a initial_counters i)
qed

text \<open>
  C4. When the cached session is absent or invalid (the load step throws nothing and
  the cached login gives \<^verbatim>\<open>null\<close>) and \<open>Auth.signIn\<close> throws, \<open>kwiksetLogin\<close> returns
  normally: nothing propagates to the caller. The run's events are those of the
  prologue, the warning, one sign-in (no retry) and the error log. The files are as
  before, nothing is written, \<open>app.listen\<close> is not called, and the module's \<open>idToken\<close>
  is what it was before the run (line 180 is not reached): undefined in a process that
  has not logged in.
\<close>

theorem failed_sign_in_ends_unauthenticated:
  assumes "cached_session_fails w config s"
    and "Auth_signIn w (email config) (password config) = Inl err"
  shows "fst (kwiksetLogin w config s) = Returned \<and>
         files (snd (kwiksetLogin w config s)) = files s \<and>
         g_idToken (snd (kwiksetLogin w config s)) = g_idToken s \<and>
         trace (snd (kwiksetLogin w config s)) =
           trace (prologue w s) @
           [Log Warn (js ''Failed to login with cached tokens, reauthenticating...''),
            SignIn (email config) (password config),
            Log Error (js ''Failed to log in: '' @ render_error err @
                       js '' - Make sure your username and password are correct.'')] \<and>
         listens (snd (kwiksetLogin w config s)) = listens s \<and>
         writes (snd (kwiksetLogin w config s)) = writes s \<and>
         sign_ins (snd (kwiksetLogin w config s)) = Suc (sign_ins s)"
  by (simp add: kwiksetLogin_password [OF assms(1)] password_login_failure [OF assms(2)])

theorem failed_sign_in_ends_unauthenticated_witness:
  "cached_session_fails bad_password_world demo_config (initial_state Map.empty) \<and>
   Auth_signIn bad_password_world (email demo_config) (password demo_config) =
     Inl (Err (js ''NotAuthorizedException: Incorrect username or password.'')) \<and>
   fst (kwiksetLogin bad_password_world demo_config (initial_state Map.empty)) = Returned \<and>
   files (snd (kwiksetLogin bad_password_world demo_config (initial_state Map.empty))) = Map.empty \<and>
   g_idToken (snd (kwiksetLogin bad_password_world demo_config (initial_state Map.empty))) = None \<and>
   listens (snd (kwiksetLogin bad_password_world demo_config (initial_state Map.empty))) = 0 \<and>
   writes (snd (kwiksetLogin bad_password_world demo_config (initial_state Map.empty))) = 0 \<and>
   sign_ins (snd (kwiksetLogin bad_password_world demo_config (initial_state Map.empty))) = 1"
proof -
  have 1: "cached_session_fails bad_password_world demo_config (initial_state Map.empty)"
    by (simp add: cached_session_fails_def load_step_def existsSync_def initial_state_def
        cached_login_def)
  have 2: "Auth_signIn bad_password_world (email demo_config) (password demo_config) =
     Inl (Err (js ''NotAuthorizedException: Incorrect username or password.''))"
    by (simp add: bad_password_world_def)
  have 3: "files (initial_state Map.empty) = Map.empty" "g_idToken (initial_state Map.empty) = None"
    "listens (initial_state Map.empty) = 0" "writes (initial_state Map.empty) = 0"
    "sign_ins (initial_state Map.empty) = 0"
    by (simp_all add: initial_state_def listens_def writes_def sign_ins_def)
  from failed_sign_in_ends_unauthenticated [OF 1 2] 1 2 3 show ?thesis
    by simp
qed

text \<open>
  C5. When the password sign-in succeeds with a \<open>challengeName\<close> other than
  \<open>CUSTOM_CHALLENGE\<close> (undefined included), \<open>kwiksetLogin\<close> logs the unknown challenge
  name as an error and returns with the module's \<open>idToken\<close> undefined; the files are as
  before and \<open>app.listen\<close> is not called.
\<close>

theorem unknown_challenge_ends_unauthenticated:
  assumes "cached_session_fails w config s"
    and "Auth_signIn w (email config) (password config) = Inr user"
    and "challengeName user \<noteq> Some (js ''CUSTOM_CHALLENGE'')"
  shows "fst (kwiksetLogin w config s) = Returned \<and>
         g_idToken (snd (kwiksetLogin w config s)) = None \<and>
         files (snd (kwiksetLogin w config s)) = files s \<and>
         trace (snd (kwiksetLogin w config s)) =
           trace (prologue w s) @
           [Log Warn (js ''Failed to login with cached tokens, reauthenticating...''),
            SignIn (email config) (password config),
            Log Error (js ''Unknown auth challenge name '' @ render_opt (challengeName user)),
            Log Info (js ''Logged in!'')] \<and>
         listens (snd (kwiksetLogin w config s)) = listens s \<and>
         writes (snd (kwiksetLogin w config s)) = writes s"
  by (simp add: kwiksetLogin_password [OF assms(1)]
      password_login_unknown_challenge [OF assms(2) assms(3)])

theorem unknown_challenge_ends_unauthenticated_witness:
  "cached_session_fails totp_world demo_config
     ((initial_state Map.empty)\<lparr>g_idToken := Some (js ''stale'')\<rparr>) \<and>
   Auth_signIn totp_world (email demo_config) (password demo_config) =
     Inr \<lparr>challengeName = Some (js ''SOFTWARE_TOKEN_MFA''), getSession = Inl (Err (js ''no session''))\<rparr> \<and>
   Some (js ''SOFTWARE_TOKEN_MFA'') \<noteq> Some (js ''CUSTOM_CHALLENGE'') \<and>
   fst (kwiksetLogin totp_world demo_config
          ((initial_state Map.empty)\<lparr>g_idToken := Some (js ''stale'')\<rparr>)) = Returned \<and>
   g_idToken (snd (kwiksetLogin totp_world demo_config
          ((initial_state Map.empty)\<lparr>g_idToken := Some (js ''stale'')\<rparr>))) = None \<and>
   listens (snd (kwiksetLogin totp_world demo_config
          ((initial_state Map.empty)\<lparr>g_idToken := Some (js ''stale'')\<rparr>))) = 0"
proof -
  let ?s = "(initial_state Map.empty)\<lparr>g_idToken := Some (js ''stale'')\<rparr>"
  let ?u = "\<lparr>challengeName = Some (js ''SOFTWARE_TOKEN_MFA''), getSession = Inl (Err (js ''no session''))\<rparr>"
  have 1: "cached_session_fails totp_world demo_config ?s"
    by (simp add: cached_session_fails_def load_step_def existsSync_def initial_state_def
        cached_login_def)
  have 2: "Auth_signIn totp_world (email demo_config) (password demo_config) = Inr ?u"
    by (simp add: totp_world_def)
  have 3: "challengeName ?u \<noteq> Some (js ''CUSTOM_CHALLENGE'')"
    by (simp add: js_def)
  have 4: "listens ?s = 0"
    by (simp add: initial_state_def listens_def)
  from unknown_challenge_ends_unauthenticated [OF 1 2 3] 1 2 3 4 show ?thesis
    by simp
qed

text \<open>
  C6. A credential record written by the save step and loaded by the load step comes
  back with the same three field values: when \<open>save_step\<close> succeeds in writing
  \<open>JSON.stringify(r)\<close> to a path, \<open>load_step\<close> on the resulting file system parses
  an object whose \<open>idToken\<close>, \<open>accessToken\<close> and \<open>refreshToken\<close> are the strings of
  \<open>r\<close>, code unit for code unit. This holds for every record: quotes, backslashes,
  control characters and lone surrogates are escaped by \<open>JSON.stringify\<close>, so the text
  written has a UTF-8 encoding that decodes to itself.
\<close>

theorem token_file_round_trip:
  assumes "save_step w p (Some r) s = Inr s'"
  shows "\<exists>v. load_step (files s') p = Inr (Some v) \<and>
             get_prop v (js ''idToken'') = Some (JString (idToken r)) \<and>
             get_prop v (js ''accessToken'') = Some (JString (accessToken r)) \<and>
             get_prop v (js ''refreshToken'') = Some (JString (refreshToken r))"
proof -
  from assms have "files s' = (files s)(p \<mapsto> Inr (toWellFormed (JSON_stringify (Some r))))"
    by (auto simp: save_step_def writeFileSync_def split: option.splits)
  then have "load_step (files s') p =
      Inr (Some (JObject [(js ''idToken'', JString (idToken r)),
                          (js ''accessToken'', JString (accessToken r)),
                          (js ''refreshToken'', JString (refreshToken r))]))"
    by (simp add: load_after_write)
  then show ?thesis
    using key_distinct by (simp add: key_distinct [symmetric])
qed

theorem token_file_round_trip_witness:
  "save_step demo_world (kwiksetSavePath_of demo_world) (Some odd_creds) (initial_state Map.empty)
     = Inr (emit (WriteFile (kwiksetSavePath_of demo_world) (JSON_stringify (Some odd_creds)))
             (initial_state
                [kwiksetSavePath_of demo_world \<mapsto> Inr (toWellFormed (JSON_stringify (Some odd_creds)))]))
   \<and> (\<exists>v. load_step
              (files (emit (WriteFile (kwiksetSavePath_of demo_world) (JSON_stringify (Some odd_creds)))
                 (initial_state
                    [kwiksetSavePath_of demo_world \<mapsto> Inr (toWellFormed (JSON_stringify (Some odd_creds)))])))
              (kwiksetSavePath_of demo_world) = Inr (Some v) \<and>
            get_prop v (js ''idToken'') = Some (JString [0x22, 0x5C, 0x0A, 0x01, 0xD800, 0x41]) \<and>
            get_prop v (js ''accessToken'') = Some (JString [0xD83D, 0xDE00, 0x7F, 0xDC00]) \<and>
            get_prop v (js ''refreshToken'') = Some (JString []))"
proof -
  have h: "save_step demo_world (kwiksetSavePath_of demo_world) (Some odd_creds) (initial_state Map.empty)
     = Inr (emit (WriteFile (kwiksetSavePath_of demo_world) (JSON_stringify (Some odd_creds)))
             (initial_state
                [kwiksetSavePath_of demo_world \<mapsto> Inr (toWellFormed (JSON_stringify (Some odd_creds)))]))"
    by (simp add: save_step_def writeFileSync_def demo_world_def initial_state_def)
  from token_file_round_trip [OF h] h show ?thesis
    by (simp add: odd_creds_def)
qed

text \<open>
  C7. When no file exists at the save path, the load step leaves \<open>savedCreds\<close>
  undefined and throws nothing; the cached-session branch is skipped (\<open>credentials\<close> is
  \<^verbatim>\<open>null\<close>) and \<open>kwiksetLogin\<close> goes on to the password login.
\<close>

theorem missing_token_file_is_absent:
  assumes "files s (kwiksetSavePath_of w) = None"
  shows "load_step (files s) (kwiksetSavePath_of w) = Inr None \<and>
         cached_login w config None = Inr None \<and>
         kwiksetLogin w config s = password_login w config (kwiksetSavePath_of w) (prologue w s)"
  using assms
  by (simp add: load_step_def existsSync_def cached_login_def kwiksetLogin_cases)

theorem missing_token_file_is_absent_witness:
  "files (initial_state Map.empty) (kwiksetSavePath_of demo_world) = None \<and>
   load_step (files (initial_state Map.empty)) (kwiksetSavePath_of demo_world) = Inr None \<and>
   kwiksetLogin demo_world demo_config (initial_state Map.empty) =
     password_login demo_world demo_config (kwiksetSavePath_of demo_world)
       (prologue demo_world (initial_state Map.empty))"
proof -
  have h: "files (initial_state Map.empty) (kwiksetSavePath_of demo_world) = None"
    by (simp add: initial_state_def)
  from missing_token_file_is_absent [OF h, of demo_config] h show ?thesis
    by simp
qed

text \<open>
  C8. A login that succeeds with the cached session leaves the files as they were and
  writes nothing. In any run at all, the files change or a write happens only when the
  challenge was completed in that run: the run returned, a posted code was answered
  with the redirect to the success page, after the listener had been started.
\<close>

theorem only_completed_challenge_writes_token_file:
  "(load_step (files s) (kwiksetSavePath_of w) = Inr (Some v) \<and> truthy v \<and>
    logInWithStoredCreds w config (get_prop v (js ''idToken''))
      (get_prop v (js ''accessToken'')) (get_prop v (js ''refreshToken'')) = Inr (Some r) \<longrightarrow>
      fst (kwiksetLogin w config s) = Returned \<and>
      files (snd (kwiksetLogin w config s)) = files s \<and>
      writes (snd (kwiksetLogin w config s)) = writes s) \<and>
   (files (snd (kwiksetLogin w config s)) \<noteq> files s \<or>
    writes (snd (kwiksetLogin w config s)) \<noteq> writes s \<longrightarrow>
      fst (kwiksetLogin w config s) = Returned \<and>
      redirects_to (js ''/success.html'') (snd (kwiksetLogin w config s)) =
        Suc (redirects_to (js ''/success.html'') s) \<and>
      listens (snd (kwiksetLogin w config s)) = Suc (listens s))"
proof (intro conjI impI)
  assume "files (snd (kwiksetLogin w config s)) \<noteq> files s \<or>
          writes (snd (kwiksetLogin w config s)) \<noteq> writes s"
  with kwiksetLogin_writes [of w config s]
  show "fst (kwiksetLogin w config s) = Returned"
    and "redirects_to (js ''/success.html'') (snd (kwiksetLogin w config s)) =
           Suc (redirects_to (js ''/success.html'') s)"
    and "listens (snd (kwiksetLogin w config s)) = Suc (listens s)"
    by auto
qed (simp_all add: kwiksetLogin_cases cached_login_def)

theorem only_completed_challenge_writes_token_file_witness:
  "load_step (files (initial_state (stored_files cached_world (Some demo_creds))))
     (kwiksetSavePath_of cached_world) = Inr (Some (json_of demo_creds)) \<and>
   truthy (json_of demo_creds) \<and>
   logInWithStoredCreds cached_world demo_config (get_prop (json_of demo_creds) (js ''idToken''))
     (get_prop (json_of demo_creds) (js ''accessToken''))
     (get_prop (json_of demo_creds) (js ''refreshToken'')) = Inr (Some demo_creds) \<and>
   files (snd (kwiksetLogin cached_world demo_config
            (initial_state (stored_files cached_world (Some demo_creds))))) =
     stored_files cached_world (Some demo_creds) \<and>
   writes (snd (kwiksetLogin cached_world demo_config
            (initial_state (stored_files cached_world (Some demo_creds))))) = 0 \<and>
   files (snd (kwiksetLogin demo_world demo_config (initial_state Map.empty))) \<noteq>
     files (initial_state Map.empty) \<and>
   fst (kwiksetLogin demo_world demo_config (initial_state Map.empty)) = Returned \<and>
   redirects_to (js ''/success.html'')
     (snd (kwiksetLogin demo_world demo_config (initial_state Map.empty))) = 1 \<and>
   listens (snd (kwiksetLogin demo_world demo_config (initial_state Map.empty))) = 1"
proof -
  let ?s = "initial_state (stored_files cached_world (Some demo_creds))"
  have 1: "load_step (files ?s) (kwiksetSavePath_of cached_world) = Inr (Some (json_of demo_creds))"
    by (simp add: initial_state_def load_stored_files)
  have 2: "truthy (json_of demo_creds)"
    by (simp add: json_of_def)
  have 3: "logInWithStoredCreds cached_world demo_config (get_prop (json_of demo_creds) (js ''idToken''))
     (get_prop (json_of demo_creds) (js ''accessToken''))
     (get_prop (json_of demo_creds) (js ''refreshToken'')) = Inr (Some demo_creds)"
    by (simp add: logInWithStoredCreds_def cached_world_def demo_world_def session_user_def
        getCredentialsFromSession_def demo_session_def demo_creds_def)
  have a: "files (snd (kwiksetLogin cached_world demo_config ?s)) = stored_files cached_world (Some demo_creds) \<and>
           writes (snd (kwiksetLogin cached_world demo_config ?s)) = 0"
    using only_completed_challenge_writes_token_file
      [of ?s cached_world "json_of demo_creds" demo_config demo_creds] 1 2 3
    by (simp add: initial_counters)
  have b: "fst (kwiksetLogin demo_world demo_config (initial_state Map.empty)) = Returned \<and>
           redirects_to (js ''/success.html'')
             (snd (kwiksetLogin demo_world demo_config (initial_state Map.empty))) = 1 \<and>
           listens (snd (kwiksetLogin demo_world demo_config (initial_state Map.empty))) = 1"
    using only_completed_challenge_writes_token_file
      [of "initial_state Map.empty" demo_world "json_of demo_creds" demo_config demo_creds]
      demo_world_writes
    by (simp add: initial_counters)
  from 1 2 3 a b demo_world_writes show ?thesis
    by simp
qed

text \<open>
  C9. While the module's \<open>idToken\<close> is unset, \<open>apiRequest\<close> still hands the request
  to \<open>fetch\<close> and returns what \<open>fetch\<close> returns, whatever the options: no branch of
  the helper looks at the token, and the \<open>Authorization\<close> header is the text
  \<open>Bearer undefined\<close>.
\<close>

theorem apiRequest_without_login_sends_undefined_token:
  assumes "g_idToken s = None"
  shows "apiRequest K fetch s opts =
           fetch \<lparr>req_url = js ''https://'' @ API_HOST K @ js ''/'' @ path opts,
                  req_method = http_method opts,
                  req_headers =
                    [(js ''Host'', API_HOST K),
                     (js ''User-Agent'', API_USER_AGENT K),
                     (js ''Accept-Encoding'', js ''gzip''),
                     (js ''Authorization'', js ''Bearer undefined'')],
                  req_body = body opts\<rparr>"
  using assms
  by (simp add: apiRequest_def apiRequest_request_def js_def)

theorem apiRequest_without_login_sends_undefined_token_witness:
  "g_idToken (initial_state Map.empty) = None \<and>
   apiRequest demo_constants id (initial_state Map.empty) (lock_status :: unit opts) =
     \<lparr>req_url = js ''https://api.example.com/lock/status'',
      req_method = js ''GET'',
      req_headers =
        [(js ''Host'', js ''api.example.com''),
         (js ''User-Agent'', js ''agent''),
         (js ''Accept-Encoding'', js ''gzip''),
         (js ''Authorization'', js ''Bearer undefined'')],
      req_body = None\<rparr>"
proof -
  have h: "g_idToken (initial_state Map.empty) = None"
    by (simp add: initial_state_def)
  from apiRequest_without_login_sends_undefined_token
    [OF h, of demo_constants "id :: unit request \<Rightarrow> unit request" lock_status] h
  show ?thesis
    by (simp add: demo_constants_def lock_status_def js_append [symmetric])
qed

text \<open>
  C10. On the path where a posted code is verified, the text written to the token file
  is \<open>JSON.stringify\<close> of what a second fetch gives (line 172: the session of a fresh
  \<open>Auth.currentAuthenticatedUser\<close>), while the module's \<open>idToken\<close> comes from the
  record fetched in the loop (line 158). So when the second fetch gives \<^verbatim>\<open>null\<close>,
  \<open>kwiksetLogin\<close> still returns, the file holds the text \<open>null\<close>, which loads as the
  falsy value \<^verbatim>\<open>null\<close> and not as a credential record, and \<open>idToken\<close> is the one of
  the loop's record.
\<close>

theorem persisted_record_comes_from_second_fetch:
  assumes "reaches_challenge w config s user"
    and "submitted w = bad @ code # rest"
    and "rejected w user bad (Suc (n_answers s)) (n_lookups s)"
    and "Auth_sendCustomChallengeAnswer w (Suc (n_answers s) + length bad) user (verify_answer code) = None"
    and "Auth_currentAuthenticatedUser w (n_lookups s + length bad) = Inr u1"
    and "Auth_currentAuthenticatedUser w (Suc (n_lookups s + length bad)) = Inr u2"
    and "write_failure w (kwiksetSavePath_of w) = None"
  shows "fst (kwiksetLogin w config s) = Returned \<and>
         files (snd (kwiksetLogin w config s)) (kwiksetSavePath_of w) =
           Some (Inr (JSON_stringify (getCredentialsFromSession u2))) \<and>
         g_idToken (snd (kwiksetLogin w config s)) =
           map_option idToken (getCredentialsFromSession u1) \<and>
         (isl (getSession u2) \<longrightarrow>
            files (snd (kwiksetLogin w config s)) (kwiksetSavePath_of w) = Some (Inr (js ''null'')) \<and>
            load_step (files (snd (kwiksetLogin w config s))) (kwiksetSavePath_of w) = Inr (Some JNull) \<and>
            \<not> truthy JNull)"
proof -
  have n: "getCredentialsFromSession u2 = None" if "isl (getSession u2)"
    using that by (cases "getSession u2") (simp_all add: getCredentialsFromSession_def)
  have l: "load_step ((files s)(kwiksetSavePath_of w \<mapsto> Inr (JSON_stringify None)))
             (kwiksetSavePath_of w) = Inr (Some JNull)"
    using load_after_write [of "files s" "kwiksetSavePath_of w" None]
    by (simp add: toWellFormed_stringify)
  show ?thesis
    using mfa_success [OF assms] n l
    by (auto simp: JSON_stringify_def)
qed

theorem persisted_record_comes_from_second_fetch_witness:
  "reaches_challenge null_world demo_config (initial_state Map.empty) challenge_user \<and>
   rejected null_world challenge_user [js ''111111'', js ''222222''] 1 0 \<and>
   Auth_currentAuthenticatedUser null_world 2 = Inr session_user \<and>
   Auth_currentAuthenticatedUser null_world 3 = Inr null_session_user \<and>
   isl (getSession null_session_user) \<and>
   fst (kwiksetLogin null_world demo_config (initial_state Map.empty)) = Returned \<and>
   files (snd (kwiksetLogin null_world demo_config (initial_state Map.empty)))
     (kwiksetSavePath_of null_world) = Some (Inr (js ''null'')) \<and>
   load_step (files (snd (kwiksetLogin null_world demo_config (initial_state Map.empty))))
     (kwiksetSavePath_of null_world) = Inr (Some JNull) \<and>
   g_idToken (snd (kwiksetLogin null_world demo_config (initial_state Map.empty))) = Some (js ''id-1'')"
proof -
  let ?s = "initial_state Map.empty"
  have 1: "reaches_challenge null_world demo_config ?s challenge_user"
    by (simp add: reaches_challenge_def listener_starts_def cached_session_fails_def load_step_def
        existsSync_def initial_state_def cached_login_def null_world_def demo_world_def
        challenge_user_def demo_config_def)
  have 2: "submitted null_world = [js ''111111'', js ''222222''] @ js ''333333'' # []"
    by (simp add: null_world_def demo_world_def)
  have 3: "rejected null_world challenge_user [js ''111111'', js ''222222''] (Suc (n_answers ?s)) (n_lookups ?s)"
    by (simp add: null_world_def demo_world_def initial_state_def)
  have 4: "Auth_sendCustomChallengeAnswer null_world
      (Suc (n_answers ?s) + length [js ''111111'', js ''222222''])
      challenge_user (verify_answer (js ''333333'')) = None"
    by (simp add: null_world_def demo_world_def)
  have 5: "Auth_currentAuthenticatedUser null_world
      (n_lookups ?s + length [js ''111111'', js ''222222'']) = Inr session_user"
    by (simp add: null_world_def initial_state_def)
  have 6: "Auth_currentAuthenticatedUser null_world
      (Suc (n_lookups ?s + length [js ''111111'', js ''222222''])) = Inr null_session_user"
    by (simp add: null_world_def initial_state_def)
  have 7: "write_failure null_world (kwiksetSavePath_of null_world) = None"
    by (simp add: null_world_def demo_world_def)
  have 8: "isl (getSession null_session_user)"
    by (simp add: null_session_user_def)
  have 9: "map_option idToken (getCredentialsFromSession session_user) = Some (js ''id-1'')"
    by (simp add: getCredentialsFromSession_def session_user_def demo_session_def)
  have 10: "rejected null_world challenge_user [js ''111111'', js ''222222''] 1 0"
    using 3 by (simp add: initial_state_def)
  have 11: "Auth_currentAuthenticatedUser null_world 2 = Inr session_user"
    "Auth_currentAuthenticatedUser null_world 3 = Inr null_session_user"
    by (simp_all add: null_world_def)
  from persisted_record_comes_from_second_fetch [OF 1 2 3 4 5 6 7] 8 9
  have "fst (kwiksetLogin null_world demo_config ?s) = Returned \<and>
        files (snd (kwiksetLogin null_world demo_config ?s)) (kwiksetSavePath_of null_world) =
          Some (Inr (js ''null'')) \<and>
        load_step (files (snd (kwiksetLogin null_world demo_config ?s)))
          (kwiksetSavePath_of null_world) = Inr (Some JNull) \<and>
        g_idToken (snd (kwiksetLogin null_world demo_config ?s)) = Some (js ''id-1'')"
    by (simp add: getCredentialsFromSession_def null_session_user_def JSON_stringify_def)
  with 1 8 10 11 show ?thesis
    by simp
qed

end
